theory Spec2Isabelle
  imports Complex_Main
begin

section \<open>The training notebooks as functions on an explicit world\<close>

text \<open>
  The two notebooks script calls into a tensor framework. The framework's numerics are
  outside the notebooks, so the three calls the loops make are parameters of the model:
  \<^item> \<open>forward\<close> is \<^verbatim>\<open>model(inputs)\<close>, which reads the learnable state and the
    train/eval flag;
  \<^item> \<open>loss_fn\<close> is \<^verbatim>\<open>loss_fn(outputs, labels)\<close>;
  \<^item> \<open>backward_step\<close> is \<^verbatim>\<open>loss.backward(); optimizer.step()\<close>, the only call that
    replaces the learnable state (parameters and optimizer buffers); the preceding
    \<^verbatim>\<open>optimizer.zero_grad()\<close> clears the gradients that it recomputes.
  Each of them may raise; a raise is the value \<open>Inl e\<close>. Loss values are Python floats
  and one-element tensors; they are modelled as reals. A data loader is the list of the
  batches it yields.
\<close>

record ('m, 'x, 'l, 'o, 'e) framework =
  forward :: "bool \<Rightarrow> 'm \<Rightarrow> 'x \<Rightarrow> 'e + 'o"
  loss_fn :: "'o \<Rightarrow> 'l \<Rightarrow> 'e + real"
  backward_step :: "bool \<Rightarrow> 'm \<Rightarrow> 'x \<Rightarrow> 'l \<Rightarrow> 'e + 'm"

datatype 'e py_error = NameError | ZeroDivisionError | Raised 'e

text \<open>
  Everything the cells do besides computing is recorded, in order, in a trace: the
  completed batches (with the epoch, the batch index and the loss), the lines printed,
  the calls on the TensorBoard writer and the calls of \<^verbatim>\<open>torch.save\<close>.
\<close>

datatype 'm event =
    Print_epoch nat
  | Train_batch nat nat real
  | Print_batch nat real
  | Add_scalar real nat
  | Val_batch nat nat real
  | Print_loss real real
  | Add_scalars real real nat
  | Flush
  | Save nat 'm
  | Print_len nat
  | Print_batch_no nat
  | Print_finished

text \<open>
  The module-level variables of the notebook. \<open>var_i\<close> is the global \<^verbatim>\<open>i\<close> of the
  epoch cell, unbound (\<open>None\<close>) until its validation loop has bound it; \<open>files\<close> maps the
  epoch number in \<^verbatim>\<open>'model_{timestamp}_{epoch_number}'\<close> to the state saved there.
\<close>

record 'm world =
  model :: 'm
  training :: bool
  epoch_number :: nat
  best_vloss :: real
  var_i :: "nat option"
  trace :: "'m event list"
  files :: "nat \<rightharpoonup> 'm"

type_synonym ('m, 'e, 'a) outcome = "('e py_error \<times> 'm world) + ('a \<times> 'm world)"

definition emit :: "'m event list \<Rightarrow> 'm world \<Rightarrow> 'm world" where
  "emit evs w = w\<lparr>trace := trace w @ evs\<rparr>"

subsection \<open>\<^verbatim>\<open>train_one_epoch\<close> (Model Training notebook)\<close>

text \<open>
  One pass of the loop body up to \<^verbatim>\<open>optimizer.step()\<close>. A raise leaves the world as
  it was when the batch began.
\<close>

definition train_batch ::
  "('m, 'x, 'l, 'o, 'e) framework \<Rightarrow> nat \<Rightarrow> nat \<Rightarrow> 'x \<times> 'l \<Rightarrow> 'm world \<Rightarrow> ('m, 'e, real) outcome"
where
  "train_batch fw epoch_index i d w =
     (case d of (inputs, labels) \<Rightarrow>
        (case forward fw (training w) (model w) inputs of
           Inl e \<Rightarrow> Inl (Raised e, w)
         | Inr outputs \<Rightarrow>
             (case loss_fn fw outputs labels of
                Inl e \<Rightarrow> Inl (Raised e, w)
              | Inr loss \<Rightarrow>
                  (case backward_step fw (training w) (model w) inputs labels of
                     Inl e \<Rightarrow> Inl (Raised e, w)
                   | Inr m' \<Rightarrow>
                       Inr (loss, emit [Train_batch epoch_index i loss] (w\<lparr>model := m'\<rparr>))))))"

text \<open>
  The rest of the body, \<^verbatim>\<open>running_loss += loss.item(); if i % 1000 == 999: ...\<close>. The
  reporting interval is the parameter \<open>N\<close>: the source has \<open>N = 1000\<close>, written as the
  literals \<^verbatim>\<open>1000\<close> and \<^verbatim>\<open>999\<close>. The result is the new \<^verbatim>\<open>running_loss\<close>, the new
  \<^verbatim>\<open>last_loss\<close> and what was printed and written.
\<close>

definition gather_and_report ::
  "nat \<Rightarrow> nat \<Rightarrow> nat \<Rightarrow> nat \<Rightarrow> real \<Rightarrow> real \<Rightarrow> real \<Rightarrow> real \<times> real \<times> 'm event list"
where
  "gather_and_report N epoch_index len i running_loss last_loss loss =
     (let running_loss = running_loss + loss in
      if i mod N = N - 1 then
        (let last_loss = running_loss / real N;
             tb_x = epoch_index * len + i + 1
         in (0, last_loss, [Print_batch (i + 1) last_loss, Add_scalar last_loss tb_x]))
      else (running_loss, last_loss, []))"

fun train_loop ::
  "('m, 'x, 'l, 'o, 'e) framework \<Rightarrow> nat \<Rightarrow> nat \<Rightarrow> nat \<Rightarrow> nat \<Rightarrow> ('x \<times> 'l) list \<Rightarrow>
   real \<Rightarrow> real \<Rightarrow> 'm world \<Rightarrow> ('m, 'e, real \<times> real) outcome"
where
  "train_loop fw N epoch_index len i [] running_loss last_loss w =
     Inr ((running_loss, last_loss), w)"
| "train_loop fw N epoch_index len i (d # ds) running_loss last_loss w =
     (case train_batch fw epoch_index i d w of
        Inl err \<Rightarrow> Inl err
      | Inr (loss, w1) \<Rightarrow>
          (case gather_and_report N epoch_index len i running_loss last_loss loss of
             (running_loss', last_loss', evs) \<Rightarrow>
               train_loop fw N epoch_index len (i + 1) ds running_loss' last_loss' (emit evs w1)))"

definition train_one_epoch ::
  "('m, 'x, 'l, 'o, 'e) framework \<Rightarrow> nat \<Rightarrow> ('x \<times> 'l) list \<Rightarrow> nat \<Rightarrow> 'm world \<Rightarrow>
   ('m, 'e, real) outcome"
where
  "train_one_epoch fw N training_loader epoch_index w =
     (case train_loop fw N epoch_index (length training_loader) 0 training_loader 0 0 w of
        Inl err \<Rightarrow> Inl err
      | Inr ((running_loss, last_loss), w') \<Rightarrow> Inr (last_loss, w'))"

subsection \<open>The epoch cell (Model Training notebook)\<close>

text \<open>
  The validation loop binds the global \<^verbatim>\<open>i\<close> at the start of every iteration and adds
  the loss tensor to \<^verbatim>\<open>running_vloss\<close>.
\<close>

fun validation_loop ::
  "('m, 'x, 'l, 'o, 'e) framework \<Rightarrow> nat \<Rightarrow> ('x \<times> 'l) list \<Rightarrow> real \<Rightarrow> 'm world \<Rightarrow>
   ('m, 'e, real) outcome"
where
  "validation_loop fw i [] running_vloss w = Inr (running_vloss, w)"
| "validation_loop fw i (vdata # ds) running_vloss w =
     (let w1 = w\<lparr>var_i := Some i\<rparr> in
      case vdata of (vinputs, vlabels) \<Rightarrow>
        (case forward fw (training w1) (model w1) vinputs of
           Inl e \<Rightarrow> Inl (Raised e, w1)
         | Inr voutputs \<Rightarrow>
             (case loss_fn fw voutputs vlabels of
                Inl e \<Rightarrow> Inl (Raised e, w1)
              | Inr vloss \<Rightarrow>
                  validation_loop fw (i + 1) ds (running_vloss + vloss)
                    (emit [Val_batch (epoch_number w1) i vloss] w1))))"

text \<open>
  From \<^verbatim>\<open>model.train(False)\<close> to \<^verbatim>\<open>avg_vloss = running_vloss / (i + 1)\<close>. Reading an
  unbound \<^verbatim>\<open>i\<close> raises NameError.
\<close>

definition validation_pass ::
  "('m, 'x, 'l, 'o, 'e) framework \<Rightarrow> ('x \<times> 'l) list \<Rightarrow> 'm world \<Rightarrow> ('m, 'e, real) outcome"
where
  "validation_pass fw validation_loader w =
     (case validation_loop fw 0 validation_loader 0 (w\<lparr>training := False\<rparr>) of
        Inl err \<Rightarrow> Inl err
      | Inr (running_vloss, w1) \<Rightarrow>
          (case var_i w1 of
             None \<Rightarrow> Inl (NameError, w1)
           | Some i \<Rightarrow> Inr (running_vloss / real (i + 1), w1)))"

text \<open>The tail of the loop body: \<^verbatim>\<open>if avg_vloss < best_vloss: ...\<close>.\<close>

definition track_best :: "real \<Rightarrow> 'm world \<Rightarrow> 'm world" where
  "track_best avg_vloss w =
     (if avg_vloss < best_vloss w then
        emit [Save (epoch_number w) (model w)]
          (w\<lparr>best_vloss := avg_vloss, files := (files w)(epoch_number w \<mapsto> model w)\<rparr>)
      else w)"

text \<open>The first half of one iteration of \<^verbatim>\<open>for epoch in range(EPOCHS)\<close>: training, then
  validation.\<close>

definition epoch_eval ::
  "('m, 'x, 'l, 'o, 'e) framework \<Rightarrow> nat \<Rightarrow> ('x \<times> 'l) list \<Rightarrow> ('x \<times> 'l) list \<Rightarrow> 'm world \<Rightarrow>
   ('m, 'e, real \<times> real) outcome"
where
  "epoch_eval fw N training_loader validation_loader w =
     (let w0 = emit [Print_epoch (epoch_number w + 1)] w in
      case train_one_epoch fw N training_loader (epoch_number w0) (w0\<lparr>training := True\<rparr>) of
        Inl err \<Rightarrow> Inl err
      | Inr (avg_loss, w1) \<Rightarrow>
          (case validation_pass fw validation_loader w1 of
             Inl err \<Rightarrow> Inl err
           | Inr (avg_vloss, w2) \<Rightarrow> Inr ((avg_loss, avg_vloss), w2)))"

text \<open>The second half: the report, the best-so-far tracker, the epoch counter.\<close>

definition epoch_report :: "real \<Rightarrow> real \<Rightarrow> 'm world \<Rightarrow> 'm world" where
  "epoch_report avg_loss avg_vloss w =
     (let w3 = emit [Print_loss avg_loss avg_vloss,
                     Add_scalars avg_loss avg_vloss (epoch_number w + 1), Flush] w;
          w4 = track_best avg_vloss w3
      in w4\<lparr>epoch_number := epoch_number w4 + 1\<rparr>)"

definition epoch_body ::
  "('m, 'x, 'l, 'o, 'e) framework \<Rightarrow> nat \<Rightarrow> ('x \<times> 'l) list \<Rightarrow> ('x \<times> 'l) list \<Rightarrow> 'm world \<Rightarrow>
   ('e py_error \<times> 'm world) + 'm world"
where
  "epoch_body fw N training_loader validation_loader w =
     (case epoch_eval fw N training_loader validation_loader w of
        Inl err \<Rightarrow> Inl err
      | Inr ((avg_loss, avg_vloss), w2) \<Rightarrow> Inr (epoch_report avg_loss avg_vloss w2))"

fun epochs_loop ::
  "('m, 'x, 'l, 'o, 'e) framework \<Rightarrow> nat \<Rightarrow> ('x \<times> 'l) list \<Rightarrow> ('x \<times> 'l) list \<Rightarrow> nat \<Rightarrow>
   'm world \<Rightarrow> ('e py_error \<times> 'm world) + 'm world"
where
  "epochs_loop fw N training_loader validation_loader 0 w = Inr w"
| "epochs_loop fw N training_loader validation_loader (Suc k) w =
     (case epoch_body fw N training_loader validation_loader w of
        Inl err \<Rightarrow> Inl err
      | Inr w' \<Rightarrow> epochs_loop fw N training_loader validation_loader k w')"

text \<open>The cell: \<^verbatim>\<open>best_vloss = 1_000_000.\<close> and the loop over \<^verbatim>\<open>range(EPOCHS)\<close>.\<close>

definition sentinel :: real where
  "sentinel = 1000000"

definition run_epochs ::
  "('m, 'x, 'l, 'o, 'e) framework \<Rightarrow> nat \<Rightarrow> ('x \<times> 'l) list \<Rightarrow> ('x \<times> 'l) list \<Rightarrow> nat \<Rightarrow>
   'm world \<Rightarrow> ('e py_error \<times> 'm world) + 'm world"
where
  "run_epochs fw N training_loader validation_loader EPOCHS w =
     epochs_loop fw N training_loader validation_loader EPOCHS (w\<lparr>best_vloss := sentinel\<rparr>)"

text \<open>
  The world in which the epoch cell first runs when the notebook is executed from the
  top: \<^verbatim>\<open>epoch_number = 0\<close>, a freshly constructed module (training flag set), no global
  \<^verbatim>\<open>i\<close>, nothing written. \<^verbatim>\<open>best_vloss\<close> is not bound until the cell assigns it.
\<close>

definition notebook_start :: "'m \<Rightarrow> 'm world" where
  "notebook_start m0 =
     \<lparr>model = m0, training = True, epoch_number = 0, best_vloss = 0, var_i = None,
      trace = [], files = Map.empty\<rparr>"

subsection \<open>The training cell of the TensorBoard notebook\<close>

text \<open>
  Here the validation check runs inside the training loop, on every \<open>N\<close>-th batch
  (\<open>N = 1000\<close> in the source), between \<^verbatim>\<open>net.train(False)\<close> and \<^verbatim>\<open>net.train(True)\<close>; the
  loop variable is \<^verbatim>\<open>j\<close> and the divisor is \<^verbatim>\<open>len(validation_loader)\<close>.
\<close>

fun tb_validation_loop ::
  "('m, 'x, 'l, 'o, 'e) framework \<Rightarrow> nat \<Rightarrow> nat \<Rightarrow> ('x \<times> 'l) list \<Rightarrow> real \<Rightarrow> 'm world \<Rightarrow>
   ('m, 'e, real) outcome"
where
  "tb_validation_loop fw epoch j [] running_vloss w = Inr (running_vloss, w)"
| "tb_validation_loop fw epoch j (vdata # ds) running_vloss w =
     (case vdata of (vinputs, vlabels) \<Rightarrow>
        (case forward fw (training w) (model w) vinputs of
           Inl e \<Rightarrow> Inl (Raised e, w)
         | Inr voutputs \<Rightarrow>
             (case loss_fn fw voutputs vlabels of
                Inl e \<Rightarrow> Inl (Raised e, w)
              | Inr vloss \<Rightarrow>
                  tb_validation_loop fw epoch (j + 1) ds (running_vloss + vloss)
                    (emit [Val_batch epoch j vloss] w))))"

definition tb_validation ::
  "('m, 'x, 'l, 'o, 'e) framework \<Rightarrow> nat \<Rightarrow> ('x \<times> 'l) list \<Rightarrow> 'm world \<Rightarrow> ('m, 'e, real) outcome"
where
  "tb_validation fw epoch validation_loader w =
     (case tb_validation_loop fw epoch 0 validation_loader 0 (w\<lparr>training := False\<rparr>) of
        Inl err \<Rightarrow> Inl err
      | Inr (running_vloss, w1) \<Rightarrow> Inr (running_vloss, w1\<lparr>training := True\<rparr>))"

definition tb_report ::
  "('m, 'x, 'l, 'o, 'e) framework \<Rightarrow> nat \<Rightarrow> nat \<Rightarrow> nat \<Rightarrow> ('x \<times> 'l) list \<Rightarrow> nat \<Rightarrow> real \<Rightarrow>
   'm world \<Rightarrow> ('m, 'e, real) outcome"
where
  "tb_report fw N epoch len validation_loader i running_loss w =
     (if i mod N = N - 1 then
        (case tb_validation fw epoch validation_loader (emit [Print_batch_no (i + 1)] w) of
           Inl err \<Rightarrow> Inl err
         | Inr (running_vloss, w1) \<Rightarrow>
             (let avg_loss = running_loss / real N in
              if length validation_loader = 0 then Inl (ZeroDivisionError, w1)
              else
                (let avg_vloss = running_vloss / real (length validation_loader)
                 in Inr (0, emit [Add_scalars avg_loss avg_vloss (epoch * len + i)] w1))))
      else Inr (running_loss, w))"

fun tb_train_loop ::
  "('m, 'x, 'l, 'o, 'e) framework \<Rightarrow> nat \<Rightarrow> nat \<Rightarrow> nat \<Rightarrow> ('x \<times> 'l) list \<Rightarrow> nat \<Rightarrow>
   ('x \<times> 'l) list \<Rightarrow> real \<Rightarrow> 'm world \<Rightarrow> ('m, 'e, real) outcome"
where
  "tb_train_loop fw N epoch len validation_loader i [] running_loss w = Inr (running_loss, w)"
| "tb_train_loop fw N epoch len validation_loader i (d # ds) running_loss w =
     (case train_batch fw epoch i d w of
        Inl err \<Rightarrow> Inl err
      | Inr (loss, w1) \<Rightarrow>
          (case tb_report fw N epoch len validation_loader i (running_loss + loss) w1 of
             Inl err \<Rightarrow> Inl err
           | Inr (running_loss', w2) \<Rightarrow>
               tb_train_loop fw N epoch len validation_loader (i + 1) ds running_loss' w2))"

text \<open>The cell: \<^verbatim>\<open>for epoch in range(1)\<close> runs the body once, with \<^verbatim>\<open>epoch = 0\<close>.\<close>

definition tb_cell ::
  "('m, 'x, 'l, 'o, 'e) framework \<Rightarrow> nat \<Rightarrow> ('x \<times> 'l) list \<Rightarrow> ('x \<times> 'l) list \<Rightarrow> 'm world \<Rightarrow>
   ('e py_error \<times> 'm world) + 'm world"
where
  "tb_cell fw N training_loader validation_loader w =
     (case tb_train_loop fw N 0 (length training_loader) validation_loader 0 training_loader 0
             (emit [Print_len (length validation_loader)] w) of
        Inl err \<Rightarrow> Inl err
      | Inr (running_loss, w1) \<Rightarrow> Inr (emit [Print_finished, Flush] w1))"


section \<open>Observing a run\<close>

text \<open>
  A raise keeps the effects made before it, so both outcomes carry a world: \<open>after\<close> is
  the world a call leaves behind, whether it returned or raised.
\<close>

definition after :: "('b \<times> 'w) + ('a \<times> 'w) \<Rightarrow> 'w" where
  "after r = (case r of Inl (_, w) \<Rightarrow> w | Inr (_, w) \<Rightarrow> w)"

definition after_run :: "('b \<times> 'w) + 'w \<Rightarrow> 'w" where
  "after_run r = (case r of Inl (_, w) \<Rightarrow> w | Inr w \<Rightarrow> w)"

definition new_events :: "'m world \<Rightarrow> 'm world \<Rightarrow> 'm event list" where
  "new_events w w' = drop (length (trace w)) (trace w')"

definition same_globals :: "'m world \<Rightarrow> 'm world \<Rightarrow> bool" where
  "same_globals w w' \<longleftrightarrow>
     epoch_number w' = epoch_number w \<and> best_vloss w' = best_vloss w \<and> files w' = files w"

text \<open>The per-batch training losses, in the order the batches were completed.\<close>

fun train_loss_of :: "'m event \<Rightarrow> real option" where
  "train_loss_of (Train_batch e i l) = Some l"
| "train_loss_of _ = None"

definition train_losses :: "'m event list \<Rightarrow> real list" where
  "train_losses evs = List.map_filter train_loss_of evs"

text \<open>The per-batch validation losses, in order.\<close>

fun val_loss_of :: "'m event \<Rightarrow> real option" where
  "val_loss_of (Val_batch e j v) = Some v"
| "val_loss_of _ = None"

definition val_losses :: "'m event list \<Rightarrow> real list" where
  "val_losses evs = List.map_filter val_loss_of evs"

text \<open>The training-progress data points: value and step of every \<^verbatim>\<open>add_scalar\<close>.\<close>

fun report_of :: "'m event \<Rightarrow> (real \<times> nat) option" where
  "report_of (Add_scalar v x) = Some (v, x)"
| "report_of _ = None"

definition reports_of :: "'m event list \<Rightarrow> (real \<times> nat) list" where
  "reports_of evs = List.map_filter report_of evs"

text \<open>The end-of-epoch data points (\<^verbatim>\<open>add_scalars\<close>) and the snapshots saved.\<close>

fun epoch_report_of :: "'m event \<Rightarrow> (real \<times> real \<times> nat) option" where
  "epoch_report_of (Add_scalars a v x) = Some (a, v, x)"
| "epoch_report_of _ = None"

definition epoch_reports_of :: "'m event list \<Rightarrow> (real \<times> real \<times> nat) list" where
  "epoch_reports_of evs = List.map_filter epoch_report_of evs"

fun save_of :: "'m event \<Rightarrow> (nat \<times> 'm) option" where
  "save_of (Save e m) = Some (e, m)"
| "save_of _ = None"

definition saves_of :: "'m event list \<Rightarrow> (nat \<times> 'm) list" where
  "saves_of evs = List.map_filter save_of evs"

fun is_report :: "'m event \<Rightarrow> bool" where
  "is_report (Add_scalar v x) = True"
| "is_report (Add_scalars a v x) = True"
| "is_report _ = False"

text \<open>
  Where an event stands in the order of a run: training batches of epoch \<open>e\<close> come first
  (\<open>3 * e\<close>), then its validation batches, then its snapshot. Prints and writer calls
  have no place of their own.
\<close>

fun phase_of :: "'m event \<Rightarrow> nat option" where
  "phase_of (Train_batch e i l) = Some (3 * e)"
| "phase_of (Val_batch e j v) = Some (3 * e + 1)"
| "phase_of (Save e m) = Some (3 * e + 2)"
| "phase_of _ = None"

definition phases :: "'m event list \<Rightarrow> nat list" where
  "phases evs = List.map_filter phase_of evs"

text \<open>
  The reporting half of the training loop as a function of the per-batch losses alone:
  \<open>gather_and_report\<close> folded over the losses from batch index \<open>i\<close>, with the accumulator
  and \<^verbatim>\<open>last_loss\<close> threaded through.
\<close>

fun reporting ::
  "nat \<Rightarrow> nat \<Rightarrow> nat \<Rightarrow> nat \<Rightarrow> real list \<Rightarrow> real \<Rightarrow> real \<Rightarrow> (real \<times> real) \<times> 'm event list"
where
  "reporting N e len i [] r l0 = ((r, l0), [])"
| "reporting N e len i (x # xs) r l0 =
     (case gather_and_report N e len i r l0 x of
        (r', l0', evs) \<Rightarrow>
          (case reporting N e len (i + 1) xs r' l0' of
             (res, evs') \<Rightarrow> (res, Train_batch e i x # evs @ evs')))"

text \<open>
  What the specification asks of the training pass, in its words: after every \<open>N\<close>
  batches the mean of those \<open>N\<close> losses is emitted. \<open>window_mean N ls k\<close> is the mean of
  the \<open>k\<close>-th block of \<open>N\<close> losses, added up from 0 in the order of the batches as the
  accumulator does; \<open>spec_training_trace\<close> is the trace in which batch \<open>i\<close> is followed by
  a report exactly when it closes a block.
\<close>

definition window_mean :: "nat \<Rightarrow> real list \<Rightarrow> nat \<Rightarrow> real" where
  "window_mean N ls k = foldl (+) 0 (take N (drop (k * N) ls)) / real N"

definition spec_training_trace :: "nat \<Rightarrow> nat \<Rightarrow> nat \<Rightarrow> real list \<Rightarrow> 'm event list" where
  "spec_training_trace N e len ls =
     concat (map (\<lambda>i. Train_batch e i (ls ! i) #
                       (if i mod N = N - 1
                        then [Print_batch (i + 1) (window_mean N ls (i div N)),
                              Add_scalar (window_mean N ls (i div N)) (e * len + i + 1)]
                        else []))
                 [0..<length ls])"

definition val_events :: "nat \<Rightarrow> real list \<Rightarrow> 'm event list" where
  "val_events e vs = map (\<lambda>(j, v). Val_batch e j v) (List.enumerate 0 vs)"

text \<open>A framework none of whose three calls ever raises.\<close>

definition never_raises :: "('m, 'x, 'l, 'o, 'e) framework \<Rightarrow> bool" where
  "never_raises fw \<longleftrightarrow>
     (\<forall>t m x. \<exists>out. forward fw t m x = Inr out) \<and>
     (\<forall>out l. \<exists>v. loss_fn fw out l = Inr v) \<and>
     (\<forall>t m x l. \<exists>m'. backward_step fw t m x l = Inr m')"

subsection \<open>Two small frameworks to run the cells on\<close>

text \<open>
  A one-parameter model on integers: the score is \<open>m * x\<close>, the loss is the distance to
  the label, and every update adds one to \<open>m\<close>. \<open>guarded_fw\<close> is the same, except that
  each call rejects some inputs.
\<close>

definition linear_fw :: "(int, int, int, int, string) framework" where
  "linear_fw =
     \<lparr>forward = (\<lambda>t m x. Inr (m * x)),
      loss_fn = (\<lambda>out l. Inr (real_of_int \<bar>out - l\<bar>)),
      backward_step = (\<lambda>t m x l. Inr (m + 1))\<rparr>"

definition guarded_fw :: "(int, int, int, int, string) framework" where
  "guarded_fw =
     \<lparr>forward = (\<lambda>t m x. if x < 0 then Inl ''negative input'' else Inr (m * x)),
      loss_fn = (\<lambda>out l. if l < 0 then Inl ''negative label''
                          else Inr (real_of_int \<bar>out - l\<bar>)),
      backward_step = (\<lambda>t m x l. if x = 0 then Inl ''zero gradient'' else Inr (m + 1))\<rparr>"


section \<open>Properties of the loops\<close>

lemma emit_simps [simp]:
  "model (emit evs w) = model w" "training (emit evs w) = training w"
  "epoch_number (emit evs w) = epoch_number w" "best_vloss (emit evs w) = best_vloss w"
  "var_i (emit evs w) = var_i w" "files (emit evs w) = files w"
  "trace (emit evs w) = trace w @ evs"
  by (simp_all add: emit_def)

lemma train_batch_frame:
  "same_globals w (after (train_batch fw e i d w)) \<and> var_i (after (train_batch fw e i d w)) = var_i w
   \<and> training (after (train_batch fw e i d w)) = training w"
  by (simp add: train_batch_def after_def same_globals_def split: prod.splits sum.splits)

lemma train_loop_frame:
  "same_globals w (after (train_loop fw N e len i ds r l w)) \<and>
   var_i (after (train_loop fw N e len i ds r l w)) = var_i w \<and>
   training (after (train_loop fw N e len i ds r l w)) = training w"
proof (induction ds arbitrary: i r l w)
  case Nil
  show ?case by (simp add: after_def same_globals_def)
next
  case (Cons d ds)
  show ?case
  proof (cases "train_batch fw e i d w")
    case (Inl err)
    with train_batch_frame [of w fw e i d] show ?thesis
      by (simp add: after_def)
  next
    case (Inr p)
    obtain loss w1 where p: "p = (loss, w1)" by (cases p)
    obtain r' l' evs where g: "gather_and_report N e len i r l loss = (r', l', evs :: 'a event list)"
      by (cases "gather_and_report N e len i r l loss :: real \<times> real \<times> 'a event list") auto
    from train_batch_frame [of w fw e i d] Inr p
    have 1: "same_globals w w1" "var_i w1 = var_i w" "training w1 = training w"
      by (simp_all add: after_def)
    from Cons.IH [where i = "i + 1" and r = r' and l = l' and w = "emit evs w1"] 1 Inr p g
    show ?thesis by (simp add: same_globals_def)
  qed
qed

lemma after_simps [simp]:
  "after (Inl (err, w)) = w" "after (Inr (x, w)) = w"
  "after_run (Inl (err, w)) = w" "after_run (Inr w) = w"
  by (simp_all add: after_def after_run_def)

lemma same_globals_refl [simp]: "same_globals w w"
  by (simp add: same_globals_def)

lemma same_globals_trans: "same_globals a b \<Longrightarrow> same_globals b c \<Longrightarrow> same_globals a c"
  by (simp add: same_globals_def)

lemma same_globals_updates [simp]:
  "same_globals w (emit evs w1) = same_globals w w1"
  "same_globals w (w1\<lparr>training := t\<rparr>) = same_globals w w1"
  "same_globals w (w1\<lparr>var_i := v\<rparr>) = same_globals w w1"
  "same_globals w (w1\<lparr>model := m\<rparr>) = same_globals w w1"
  "same_globals (emit evs w) w1 = same_globals w w1"
  "same_globals (w\<lparr>training := t\<rparr>) w1 = same_globals w w1"
  "same_globals (w\<lparr>var_i := v\<rparr>) w1 = same_globals w w1"
  "same_globals (w\<lparr>model := m\<rparr>) w1 = same_globals w w1"
  by (simp_all add: same_globals_def)

lemma reporting_append:
  "reporting N e len i (xs @ ys) r l0 =
     (case reporting N e len i xs r l0 of
        ((r1, l1), evs1) \<Rightarrow>
          (case reporting N e len (i + length xs) ys r1 l1 of
             (res, evs2) \<Rightarrow> (res, evs1 @ (evs2 :: 'm event list))))"
  by (induction xs arbitrary: i r l0) (simp_all split: prod.splits)

lemma div_step_report:
  assumes "0 < N" "n mod N = N - 1"
  shows "Suc n div N = Suc (n div N)" "n div N * N + N = Suc n"
proof -
  from assms show "Suc n div N = Suc (n div N)"
    by (simp add: div_Suc mod_Suc)
  from div_mult_mod_eq [of n N] assms show "n div N * N + N = Suc n"
    by simp
qed

lemma div_step_quiet:
  assumes "0 < N" "n mod N \<noteq> N - 1"
  shows "Suc n div N = n div N"
proof -
  have "n mod N < N" using assms by simp
  with assms have "Suc (n mod N) \<noteq> N" by arith
  then show ?thesis by (simp add: div_Suc mod_Suc)
qed

lemma foldl_plus_sum_list: "foldl (+) a xs = a + sum_list xs" for a :: real
  by (induction xs arbitrary: a) simp_all

lemma window_mean_sum:
  "window_mean N ls k = sum_list (take N (drop (k * N) ls)) / real N"
  by (simp add: window_mean_def foldl_plus_sum_list)

lemma window_mean_append:
  "k * N + N \<le> length xs \<Longrightarrow> window_mean N (xs @ ys) k = window_mean N xs k"
  by (simp add: window_mean_sum)

lemma spec_training_trace_snoc:
  assumes "0 < N"
  shows "spec_training_trace N e len (xs @ [x]) =
         spec_training_trace N e len xs @
         Train_batch e (length xs) x #
           (if length xs mod N = N - 1
            then [Print_batch (length xs + 1) (window_mean N (xs @ [x]) (length xs div N)),
                  Add_scalar (window_mean N (xs @ [x]) (length xs div N)) (e * len + length xs + 1)]
            else [])"
proof -
  have "i div N * N + N \<le> length xs" if "i < length xs" "i mod N = N - 1" for i
    using div_step_report(2) [OF assms that(2)] that(1) by simp
  then have eq: "map (\<lambda>i. Train_batch e i ((xs @ [x]) ! i) #
                       (if i mod N = N - 1
                        then [Print_batch (i + 1) (window_mean N (xs @ [x]) (i div N)),
                              Add_scalar (window_mean N (xs @ [x]) (i div N)) (e * len + i + 1)]
                        else [])) [0..<length xs]
           = map (\<lambda>i. Train_batch e i (xs ! i) #
                       (if i mod N = N - 1
                        then [Print_batch (i + 1) (window_mean N xs (i div N)),
                              Add_scalar (window_mean N xs (i div N)) (e * len + i + 1)]
                        else [])) [0..<length xs]"
    by (intro map_cong) (auto simp: nth_append window_mean_append)
  have split: "[0..<length (xs @ [x])] = [0..<length xs] @ [length xs]" by simp
  show ?thesis
    unfolding spec_training_trace_def split map_append concat_append eq by simp
qed

lemma reporting_closed:
  assumes "0 < N"
  shows "reporting N e len 0 ls 0 0 =
         ((sum_list (drop (length ls div N * N) ls),
           if length ls < N then 0 else window_mean N ls (length ls div N - 1)),
          spec_training_trace N e len ls)"
proof (induction ls rule: rev_induct)
  case Nil
  show ?case using assms by (simp add: spec_training_trace_def)
next
  case (snoc x xs)
  let ?n = "length xs"
  show ?case
  proof (cases "?n mod N = N - 1")
    case True
    note ds = div_step_report [OF assms True]
    have le: "?n div N * N \<le> ?n" using ds(2) by simp
    have w: "window_mean N (xs @ [x]) (?n div N) = (sum_list (drop (?n div N * N) xs) + x) / real N"
      using ds(2) le by (simp add: window_mean_sum)
    have nlt: "\<not> Suc ?n < N" using ds(2) by simp
    show ?thesis
      using True assms ds le nlt
      by (simp add: reporting_append snoc.IH gather_and_report_def spec_training_trace_snoc [OF assms] w Let_def)
  next
    case False
    note d = div_step_quiet [OF assms False]
    have le: "?n div N * N \<le> ?n" by simp
    have "?n \<noteq> N - 1" using False assms by auto
    have keep: "window_mean N (xs @ [x]) (?n div N - 1) = window_mean N xs (?n div N - 1)"
      if "\<not> ?n < N"
    proof -
      from that assms have "1 \<le> ?n div N" by (simp add: div_greater_zero_iff Suc_leI)
      then have "(?n div N - 1) * N + N = ?n div N * N" by (simp add: algebra_simps diff_mult_distrib)
      with le show ?thesis by (simp add: window_mean_append)
    qed
    have lt: "Suc ?n < N \<longleftrightarrow> ?n < N" using \<open>?n \<noteq> N - 1\<close> by arith
    show ?thesis
      using False assms d le keep lt
      by (simp add: reporting_append snoc.IH gather_and_report_def spec_training_trace_snoc [OF assms] Let_def)
  qed
qed

lemma map_filter_append: "List.map_filter f (xs @ ys) = List.map_filter f xs @ List.map_filter f ys"
  by (simp add: List.map_filter_def)

lemma train_losses_simps [simp]:
  "train_losses [] = []"
  "train_losses (ev # evs) = (case train_loss_of ev of None \<Rightarrow> train_losses evs | Some l \<Rightarrow> l # train_losses evs)"
  "train_losses (xs @ ys) = train_losses xs @ train_losses ys"
  by (simp_all add: train_losses_def List.map_filter_simps map_filter_append split: option.splits)

lemma train_losses_gather:
  "gather_and_report N e len i r l0 x = (r', l0', evs) \<Longrightarrow> train_losses evs = []"
  by (auto simp: gather_and_report_def Let_def split: if_splits)

lemma train_losses_reporting:
  "train_losses (snd (reporting N e len i ls r l0)) = ls"
proof (induction ls arbitrary: i r l0)
  case Nil
  show ?case by simp
next
  case (Cons x xs)
  obtain r' l0' evs where g: "gather_and_report N e len i r l0 x = (r', l0', evs :: 'a event list)"
    by (cases "gather_and_report N e len i r l0 x :: real \<times> real \<times> 'a event list") auto
  obtain res evs' where p: "reporting N e len (i + 1) xs r' l0' = (res, evs' :: 'a event list)"
    by (cases "reporting N e len (i + 1) xs r' l0' :: (real \<times> real) \<times> 'a event list") auto
  from Cons.IH [where i = "i + 1" and r = r' and ?l0.0 = l0'] p
  have "train_losses evs' = xs" by simp
  with g p train_losses_gather [OF g] show ?case by simp
qed

lemma train_batch_outcome:
  "(\<exists>e'. train_batch fw e i d w = Inl (Raised e', w)) \<or>
   (\<exists>loss m'. train_batch fw e i d w =
       Inr (loss, emit [Train_batch e i loss] (w\<lparr>model := m'\<rparr>)))"
  by (cases d) (auto simp: train_batch_def split: sum.splits)

lemma train_batch_cases:
  obtains (fail) e' where "train_batch fw e i d w = Inl (Raised e', w)"
  | (ok) loss m' where
      "train_batch fw e i d w = Inr (loss, emit [Train_batch e i loss] (w\<lparr>model := m'\<rparr>))"
  using train_batch_outcome [of fw e i d w] by blast

lemma train_loop_reporting:
  "\<exists>ls. length ls \<le> length ds \<and>
        trace (after (train_loop fw N e len i ds r l0 w)) =
          trace w @ snd (reporting N e len i ls r l0) \<and>
        (\<forall>res w'. train_loop fw N e len i ds r l0 w = Inr (res, w') \<longrightarrow>
           length ls = length ds \<and>
           res = fst (reporting N e len i ls r l0 :: (real \<times> real) \<times> 'm event list))"
  for w :: "'m world"
proof (induction ds arbitrary: i r l0 w)
  case Nil
  show ?case by (rule exI [of _ "[]"]) (simp add: after_def)
next
  case (Cons d ds)
  show ?case
  proof (cases rule: train_batch_cases [of fw e i d w])
    case (fail e')
    then show ?thesis by (intro exI [of _ "[]"]) (simp add: after_def)
  next
    case (ok loss m')
    let ?w1 = "emit [Train_batch e i loss] (w\<lparr>model := m'\<rparr>)"
    obtain r' l0' evs where g: "gather_and_report N e len i r l0 loss = (r', l0', evs :: 'm event list)"
      by (cases "gather_and_report N e len i r l0 loss :: real \<times> real \<times> 'm event list") auto
    from Cons.IH [where i = "i + 1" and r = r' and ?l0.0 = l0' and w = "emit evs ?w1"]
    obtain ls where ls: "length ls \<le> length ds"
      "trace (after (train_loop fw N e len (i + 1) ds r' l0' (emit evs ?w1))) =
         trace (emit evs ?w1) @ snd (reporting N e len (i + 1) ls r' l0')"
      "\<forall>res w'. train_loop fw N e len (i + 1) ds r' l0' (emit evs ?w1) = Inr (res, w') \<longrightarrow>
           length ls = length ds \<and>
           res = fst (reporting N e len (i + 1) ls r' l0' :: (real \<times> real) \<times> 'm event list)"
      by blast
    obtain res evs' where p: "reporting N e len (i + 1) ls r' l0' = (res, evs' :: 'm event list)"
      by (cases "reporting N e len (i + 1) ls r' l0' :: (real \<times> real) \<times> 'm event list") auto
    show ?thesis
      using ok g ls p
      by (intro exI [of _ "loss # ls"]) simp
  qed
qed

lemma validation_loop_frame:
  "same_globals w (after (validation_loop fw i ds rv w)) \<and>
   model (after (validation_loop fw i ds rv w)) = model w \<and>
   training (after (validation_loop fw i ds rv w)) = training w"
proof (induction ds arbitrary: i rv w)
  case Nil
  show ?case by simp
next
  case (Cons d ds)
  obtain x l where d: "d = (x, l)" by (cases d)
  show ?case
  proof (cases "forward fw (training w) (model w) x")
    case (Inl e)
    then show ?thesis by (simp add: d Let_def)
  next
    case out: (Inr out)
    show ?thesis
    proof (cases "loss_fn fw out l")
      case (Inl e)
      with out show ?thesis by (simp add: d Let_def)
    next
      case (Inr v)
      with out Cons.IH [where i = "i + 1" and rv = "rv + v" and
          w = "emit [Val_batch (epoch_number w) i v] (w\<lparr>var_i := Some i\<rparr>)"]
      show ?thesis by (simp add: d Let_def)
    qed
  qed
qed

lemma validation_loop_shape:
  "\<exists>vs. length vs \<le> length ds \<and>
        trace (after (validation_loop fw i ds rv w)) =
          trace w @ map (\<lambda>(j, v). Val_batch (epoch_number w) j v) (List.enumerate i vs) \<and>
        (\<forall>rv' w'. validation_loop fw i ds rv w = Inr (rv', w') \<longrightarrow>
           length vs = length ds \<and> rv' = rv + sum_list vs \<and>
           var_i w' = (if ds = [] then var_i w else Some (i + length ds - 1)))"
proof (induction ds arbitrary: i rv w)
  case Nil
  show ?case by (rule exI [of _ "[]"]) simp
next
  case (Cons d ds)
  obtain x l where d: "d = (x, l)" by (cases d)
  let ?w1 = "w\<lparr>var_i := Some i\<rparr>"
  show ?case
  proof (cases "forward fw (training w) (model w) x")
    case (Inl e)
    then show ?thesis by (intro exI [of _ "[]"]) (simp add: d Let_def)
  next
    case out: (Inr out)
    show ?thesis
    proof (cases "loss_fn fw out l")
      case (Inl e)
      with out show ?thesis by (intro exI [of _ "[]"]) (simp add: d Let_def)
    next
      case (Inr v)
      let ?w2 = "emit [Val_batch (epoch_number w) i v] ?w1"
      from Cons.IH [where i = "i + 1" and rv = "rv + v" and w = ?w2]
      obtain vs where vs: "length vs \<le> length ds \<and>
        trace (after (validation_loop fw (i + 1) ds (rv + v) ?w2)) =
           trace ?w2 @ map (\<lambda>(j, v). Val_batch (epoch_number ?w2) j v) (List.enumerate (i + 1) vs) \<and>
        (\<forall>rv' w'. validation_loop fw (i + 1) ds (rv + v) ?w2 = Inr (rv', w') \<longrightarrow>
           length vs = length ds \<and> rv' = rv + v + sum_list vs \<and>
           var_i w' = (if ds = [] then var_i ?w2 else Some (i + 1 + length ds - 1)))"
        ..
      have step: "validation_loop fw i (d # ds) rv w = validation_loop fw (i + 1) ds (rv + v) ?w2"
        using out Inr by (simp add: d Let_def)
      have en: "List.enumerate i (v # vs) = (i, v) # List.enumerate (i + 1) vs"
        by simp
      show ?thesis
        unfolding step
      proof (intro exI [of _ "v # vs"] conjI allI impI)
        show "length (v # vs) \<le> length (d # ds)" using vs by simp
        show "trace (after (validation_loop fw (i + 1) ds (rv + v) ?w2)) =
              trace w @ map (\<lambda>(j, v). Val_batch (epoch_number w) j v) (List.enumerate i (v # vs))"
          using vs unfolding en by simp
      next
        fix rv' w'
        assume "validation_loop fw (i + 1) ds (rv + v) ?w2 = Inr (rv', w')"
        with vs have *: "length vs = length ds" "rv' = rv + v + sum_list vs"
          "var_i w' = (if ds = [] then var_i ?w2 else Some (i + 1 + length ds - 1))"
          by blast+
        show "length (v # vs) = length (d # ds)" using * by simp
        show "rv' = rv + sum_list (v # vs)" using * by simp
        show "var_i w' = (if d # ds = [] then var_i w else Some (i + length (d # ds) - 1))"
          using * by simp
      qed
    qed
  qed
qed

lemma validation_loop_rerun:
  assumes "validation_loop fw i ds rv w = Inr (rv', w')"
    and "model wa = model w" "training wa = training w"
  shows "\<exists>wa'. validation_loop fw i ds rv wa = Inr (rv', wa')"
  using assms
proof (induction ds arbitrary: i rv w wa)
  case Nil
  then show ?case by simp
next
  case (Cons d ds)
  obtain x l where d: "d = (x, l)" by (cases d)
  from Cons.prems(1) obtain out v where
    out: "forward fw (training w) (model w) x = Inr out" and
    v: "loss_fn fw out l = Inr v" and
    rest: "validation_loop fw (i + 1) ds (rv + v)
             (emit [Val_batch (epoch_number w) i v] (w\<lparr>var_i := Some i\<rparr>)) = Inr (rv', w')"
    by (auto simp: d Let_def split: sum.splits)
  from Cons.IH [OF rest, where wa = "emit [Val_batch (epoch_number wa) i v] (wa\<lparr>var_i := Some i\<rparr>)"]
    Cons.prems(2,3)
  obtain wa' where "validation_loop fw (i + 1) ds (rv + v)
      (emit [Val_batch (epoch_number wa) i v] (wa\<lparr>var_i := Some i\<rparr>)) = Inr (rv', wa')"
    by auto
  with out v Cons.prems(2,3) show ?case by (simp add: d Let_def)
qed

lemma train_one_epoch_frame:
  "same_globals w (after (train_one_epoch fw N trl e w)) \<and>
   var_i (after (train_one_epoch fw N trl e w)) = var_i w \<and>
   training (after (train_one_epoch fw N trl e w)) = training w"
proof (cases "train_loop fw N e (length trl) 0 trl 0 0 w")
  case (Inl err)
  with train_loop_frame [of w fw N e "length trl" 0 trl 0 0] show ?thesis
    by (cases err) (simp add: train_one_epoch_def)
next
  case (Inr p)
  obtain r l w' where "p = ((r, l), w')" by (cases p) auto
  with Inr train_loop_frame [of w fw N e "length trl" 0 trl 0 0] show ?thesis
    by (simp add: train_one_epoch_def)
qed

lemma train_one_epoch_shape:
  fixes w :: "'m world"
  assumes "0 < N"
  shows "\<exists>ls. length ls \<le> length trl \<and>
           trace (after (train_one_epoch fw N trl e w)) =
             trace w @ spec_training_trace N e (length trl) ls \<and>
           (\<forall>al w'. train_one_epoch fw N trl e w = Inr (al, w') \<longrightarrow>
              length ls = length trl \<and>
              al = (if length trl < N then 0 else window_mean N ls (length trl div N - 1)))"
proof -
  let ?r = "train_loop fw N e (length trl) 0 trl 0 0 w"
  from train_loop_reporting [of trl fw N e "length trl" 0 0 0 w]
  obtain ls where ls0: "length ls \<le> length trl \<and>
    trace (after ?r) = trace w @ snd (reporting N e (length trl) 0 ls 0 0) \<and>
    (\<forall>res w'. ?r = Inr (res, w') \<longrightarrow> length ls = length trl \<and>
        res = fst (reporting N e (length trl) 0 ls 0 0 :: (real \<times> real) \<times> 'm event list))"
    ..
  then have ls: "length ls \<le> length trl"
    "trace (after ?r) = trace w @ snd (reporting N e (length trl) 0 ls 0 0)"
    "\<And>res w'. ?r = Inr (res, w') \<Longrightarrow> length ls = length trl \<and>
        res = fst (reporting N e (length trl) 0 ls 0 0 :: (real \<times> real) \<times> 'm event list)"
    by blast+
  note closed = reporting_closed [OF assms, of e "length trl" ls]
  have tr: "trace (after ?r) = trace w @ spec_training_trace N e (length trl) ls"
    using ls(2) by (simp add: closed)
  show ?thesis
  proof (cases ?r)
    case (Inl err)
    with tr ls(1) show ?thesis
      by (intro exI [of _ ls]) (cases err, simp add: train_one_epoch_def)
  next
    case (Inr p)
    obtain r l w' where p: "p = ((r, l), w')" by (cases p) auto
    from ls(3) [of "(r, l)" w'] Inr p
    have "length ls = length trl" "(r, l) = fst (reporting N e (length trl) 0 ls 0 0 :: (real \<times> real) \<times> 'm event list)"
      by simp_all
    then have "length ls = length trl"
      "l = (if length trl < N then 0 else window_mean N ls (length trl div N - 1))"
      by (simp_all add: closed)
    with tr Inr p show ?thesis
      by (intro exI [of _ ls]) (simp add: train_one_epoch_def)
  qed
qed

lemma validation_pass_frame:
  "same_globals w (after (validation_pass fw vl w)) \<and>
   model (after (validation_pass fw vl w)) = model w \<and>
   training (after (validation_pass fw vl w)) = False"
proof (cases "validation_loop fw 0 vl 0 (w\<lparr>training := False\<rparr>)")
  case (Inl err)
  with validation_loop_frame [of "w\<lparr>training := False\<rparr>" fw 0 vl 0] show ?thesis
    by (cases err) (simp add: validation_pass_def)
next
  case (Inr p)
  obtain rv w' where "p = (rv, w')" by (cases p)
  with Inr validation_loop_frame [of "w\<lparr>training := False\<rparr>" fw 0 vl 0] show ?thesis
    by (simp add: validation_pass_def split: option.splits)
qed

lemma validation_pass_shape:
  "\<exists>vs. length vs \<le> length vl \<and>
        trace (after (validation_pass fw vl w)) = trace w @ val_events (epoch_number w) vs \<and>
        (\<forall>av w'. validation_pass fw vl w = Inr (av, w') \<longrightarrow>
           length vs = length vl \<and>
           (vl \<noteq> [] \<longrightarrow> av = sum_list vs / real (length vl)) \<and>
           (vl = [] \<longrightarrow> var_i w \<noteq> None \<and> av = 0))"
proof -
  let ?w0 = "w\<lparr>training := False\<rparr>"
  let ?r = "validation_loop fw 0 vl 0 ?w0"
  from validation_loop_shape [of vl fw 0 0 ?w0]
  obtain vs where vs0: "length vs \<le> length vl \<and>
        trace (after ?r) =
          trace ?w0 @ map (\<lambda>(j, v). Val_batch (epoch_number ?w0) j v) (List.enumerate 0 vs) \<and>
        (\<forall>rv' w'. ?r = Inr (rv', w') \<longrightarrow>
           length vs = length vl \<and> rv' = 0 + sum_list vs \<and>
           var_i w' = (if vl = [] then var_i ?w0 else Some (0 + length vl - 1)))"
    ..
  then have vs: "length vs \<le> length vl"
    "trace (after ?r) = trace w @ val_events (epoch_number w) vs"
    "\<And>rv' w'. ?r = Inr (rv', w') \<Longrightarrow> length vs = length vl \<and> rv' = sum_list vs \<and>
        var_i w' = (if vl = [] then var_i w else Some (length vl - 1))"
    by (simp_all add: val_events_def)
  show ?thesis
  proof (cases ?r)
    case (Inl err)
    with vs(1,2) show ?thesis
      by (intro exI [of _ vs]) (cases err, simp add: validation_pass_def)
  next
    case (Inr p)
    obtain rv w' where p: "p = (rv, w')" by (cases p)
    from vs(3) [of rv w'] Inr p
    have *: "length vs = length vl" "rv = sum_list vs"
      "var_i w' = (if vl = [] then var_i w else Some (length vl - 1))"
      by simp_all
    show ?thesis
    proof (cases "var_i w'")
      case None
      with Inr p vs(1,2) show ?thesis
        by (intro exI [of _ vs]) (simp add: validation_pass_def)
    next
      case (Some k)
      show ?thesis
      proof (cases "vl = []")
        case True
        with * Some have "vs = []" "var_i w = Some k" by simp_all
        with True Inr p vs(1,2) * Some show ?thesis
          by (intro exI [of _ vs]) (simp add: validation_pass_def)
      next
        case False
        with * Some have "Suc k = length vl" by (cases vl) auto
        then have "real (k + 1) = real (length vl)" by simp
        with False Inr p vs(1,2) * Some show ?thesis
          by (intro exI [of _ vs]) (simp add: validation_pass_def)
      qed
    qed
  qed
qed

lemma epoch_eval_frame:
  "same_globals w (after (epoch_eval fw N trl vl w))"
proof -
  let ?w0 = "(emit [Print_epoch (epoch_number w + 1)] w)\<lparr>training := True\<rparr>"
  let ?t = "train_one_epoch fw N trl (epoch_number w) ?w0"
  have t: "same_globals w (after ?t)"
    using train_one_epoch_frame [of ?w0 fw N trl "epoch_number w"] by simp
  show ?thesis
  proof (cases ?t)
    case (Inl err)
    with t show ?thesis by (cases err) (simp add: epoch_eval_def Let_def)
  next
    case (Inr p)
    obtain al w1 where p: "p = (al, w1)" by (cases p)
    from t Inr p have w1: "same_globals w w1" by simp
    have v: "same_globals w1 (after (validation_pass fw vl w1))"
      using validation_pass_frame [of w1 fw vl] by simp
    show ?thesis
    proof (cases "validation_pass fw vl w1")
      case (Inl err)
      with v w1 Inr p show ?thesis
        by (cases err) (auto simp: epoch_eval_def Let_def intro: same_globals_trans)
    next
      case vp: (Inr q)
      obtain av w2 where "q = (av, w2)" by (cases q)
      with v w1 Inr p vp show ?thesis
        by (auto simp: epoch_eval_def Let_def intro: same_globals_trans)
    qed
  qed
qed

lemma epoch_body_counter:
  assumes "epoch_body fw N trl vl w = Inr w'"
  shows "epoch_number w' = epoch_number w + 1"
proof -
  from assms obtain al av w2 where
    ev: "epoch_eval fw N trl vl w = Inr ((al, av), w2)" and w': "w' = epoch_report al av w2"
    by (auto simp: epoch_body_def split: sum.splits)
  from epoch_eval_frame [of w fw N trl vl] ev have "epoch_number w2 = epoch_number w"
    by (simp add: same_globals_def)
  then show ?thesis
    by (simp add: w' epoch_report_def track_best_def Let_def)
qed

lemma epochs_loop_counter:
  "epochs_loop fw N trl vl k w = Inr w' \<Longrightarrow> epoch_number w' = epoch_number w + k"
proof (induction k arbitrary: w)
  case 0
  then show ?case by simp
next
  case (Suc k)
  from Suc.prems obtain w1 where
    1: "epoch_body fw N trl vl w = Inr w1" and 2: "epochs_loop fw N trl vl k w1 = Inr w'"
    by (auto split: sum.splits)
  from Suc.IH [OF 2] epoch_body_counter [OF 1] show ?case by simp
qed

lemma train_loop_total:
  assumes "never_raises fw"
  shows "\<exists>res w'. train_loop fw N e len i ds r l0 w = Inr (res, w')"
proof (induction ds arbitrary: i r l0 w)
  case Nil
  show ?case by simp
next
  case (Cons d ds)
  obtain x l where d: "d = (x, l)" by (cases d)
  from assms obtain out where out: "forward fw (training w) (model w) x = Inr out"
    unfolding never_raises_def by blast
  from assms obtain v where v: "loss_fn fw out l = Inr v"
    unfolding never_raises_def by blast
  from assms obtain m' where m': "backward_step fw (training w) (model w) x l = Inr m'"
    unfolding never_raises_def by blast
  have tb: "train_batch fw e i d w = Inr (v, emit [Train_batch e i v] (w\<lparr>model := m'\<rparr>))"
    by (simp add: train_batch_def d out v m')
  obtain r' l0' evs where g: "gather_and_report N e len i r l0 v = (r', l0', evs :: 'a event list)"
    by (cases "gather_and_report N e len i r l0 v :: real \<times> real \<times> 'a event list") auto
  from Cons.IH [where i = "i + 1" and r = r' and ?l0.0 = l0'
      and w = "emit evs (emit [Train_batch e i v] (w\<lparr>model := m'\<rparr>))"]
  show ?case by (simp add: tb g)
qed

lemma validation_loop_total:
  assumes "never_raises fw"
  shows "\<exists>rv' w'. validation_loop fw i ds rv w = Inr (rv', w')"
proof (induction ds arbitrary: i rv w)
  case Nil
  show ?case by simp
next
  case (Cons d ds)
  obtain x l where d: "d = (x, l)" by (cases d)
  from assms obtain out where out: "forward fw (training w) (model w) x = Inr out"
    unfolding never_raises_def by blast
  from assms obtain v where v: "loss_fn fw out l = Inr v"
    unfolding never_raises_def by blast
  from Cons.IH [where i = "i + 1" and rv = "rv + v"
      and w = "emit [Val_batch (epoch_number w) i v] (w\<lparr>var_i := Some i\<rparr>)"]
  show ?case by (simp add: d out v Let_def)
qed

lemma epoch_body_total:
  assumes "never_raises fw" "vl \<noteq> []"
  shows "\<exists>w'. epoch_body fw N trl vl w = Inr w'"
proof -
  let ?w0 = "(emit [Print_epoch (epoch_number w + 1)] w)\<lparr>training := True\<rparr>"
  from train_loop_total [OF assms(1), of N "epoch_number w" "length trl" 0 trl 0 0 ?w0]
  obtain r l w1 where "train_loop fw N (epoch_number w) (length trl) 0 trl 0 0 ?w0 = Inr ((r, l), w1)"
    by auto
  then have t: "train_one_epoch fw N trl (epoch_number w) ?w0 = Inr (l, w1)"
    by (simp add: train_one_epoch_def)
  from validation_loop_total [OF assms(1), of 0 vl 0 "w1\<lparr>training := False\<rparr>"]
  obtain rv w2 where vloop: "validation_loop fw 0 vl 0 (w1\<lparr>training := False\<rparr>) = Inr (rv, w2)"
    by auto
  from validation_loop_shape [of vl fw 0 0 "w1\<lparr>training := False\<rparr>"] vloop assms(2)
  have "var_i w2 = Some (length vl - 1)" by auto
  with vloop have "\<exists>av. validation_pass fw vl w1 = Inr (av, w2)"
    by (simp add: validation_pass_def)
  with t show ?thesis
    by (auto simp: epoch_body_def epoch_eval_def Let_def)
qed

lemma epochs_loop_total:
  assumes "never_raises fw" "vl \<noteq> []"
  shows "\<exists>w'. epochs_loop fw N trl vl k w = Inr w'"
proof (induction k arbitrary: w)
  case 0
  show ?case by simp
next
  case (Suc k)
  from epoch_body_total [OF assms, of N trl w]
  obtain w1 where "epoch_body fw N trl vl w = Inr w1" ..
  with Suc.IH [of w1] show ?case by simp
qed

subsection \<open>Reading a trace\<close>

lemma reports_of_simps [simp]:
  "reports_of [] = []"
  "reports_of (ev # evs) =
     (case report_of ev of None \<Rightarrow> reports_of evs | Some p \<Rightarrow> p # reports_of evs)"
  "reports_of (xs @ ys) = reports_of xs @ reports_of ys"
  by (simp_all add: reports_of_def List.map_filter_simps map_filter_append split: option.splits)

lemma epoch_reports_of_simps [simp]:
  "epoch_reports_of [] = []"
  "epoch_reports_of (ev # evs) =
     (case epoch_report_of ev of None \<Rightarrow> epoch_reports_of evs
      | Some p \<Rightarrow> p # epoch_reports_of evs)"
  "epoch_reports_of (xs @ ys) = epoch_reports_of xs @ epoch_reports_of ys"
  by (simp_all add: epoch_reports_of_def List.map_filter_simps map_filter_append
      split: option.splits)

lemma saves_of_simps [simp]:
  "saves_of [] = []"
  "saves_of (ev # evs) = (case save_of ev of None \<Rightarrow> saves_of evs | Some p \<Rightarrow> p # saves_of evs)"
  "saves_of (xs @ ys) = saves_of xs @ saves_of ys"
  by (simp_all add: saves_of_def List.map_filter_simps map_filter_append split: option.splits)

lemma phases_simps [simp]:
  "phases [] = []"
  "phases (ev # evs) = (case phase_of ev of None \<Rightarrow> phases evs | Some p \<Rightarrow> p # phases evs)"
  "phases (xs @ ys) = phases xs @ phases ys"
  by (simp_all add: phases_def List.map_filter_simps map_filter_append split: option.splits)

lemma new_events_append [simp]: "trace w' = trace w @ evs \<Longrightarrow> new_events w w' = evs"
  by (simp add: new_events_def)

subsection \<open>What the pieces of an epoch's trace contain\<close>

lemma spec_training_trace_Nil [simp]: "spec_training_trace N e len [] = []"
  by (simp add: spec_training_trace_def)

lemma train_losses_spec:
  "0 < N \<Longrightarrow> train_losses (spec_training_trace N e len ls) = ls"
  by (induction ls rule: rev_induct) (simp_all add: spec_training_trace_snoc)

lemma saves_of_spec:
  "0 < N \<Longrightarrow> saves_of (spec_training_trace N e len ls) = []"
  by (induction ls rule: rev_induct) (simp_all add: spec_training_trace_snoc)

lemma epoch_reports_of_spec:
  "0 < N \<Longrightarrow> epoch_reports_of (spec_training_trace N e len ls) = []"
  by (induction ls rule: rev_induct) (simp_all add: spec_training_trace_snoc)

lemma phases_spec:
  "0 < N \<Longrightarrow> phases (spec_training_trace N e len ls) = replicate (length ls) (3 * e)"
  by (induction ls rule: rev_induct)
    (simp_all add: spec_training_trace_snoc replicate_append_same)

lemma reports_of_spec:
  assumes "0 < N"
  shows "reports_of (spec_training_trace N e len ls) =
         map (\<lambda>k. (window_mean N ls k, e * len + (k + 1) * N)) [0..<length ls div N]"
proof (induction ls rule: rev_induct)
  case Nil
  show ?case by simp
next
  case (snoc x xs)
  let ?n = "length xs"
  have keep: "map (\<lambda>k. (window_mean N (xs @ [x]) k, e * len + (k + 1) * N)) [0..<?n div N] =
              map (\<lambda>k. (window_mean N xs k, e * len + (k + 1) * N)) [0..<?n div N]"
  proof (intro map_cong refl)
    fix k assume "k \<in> set [0..<?n div N]"
    then have "Suc k \<le> ?n div N" by simp
    then have "Suc k * N \<le> ?n div N * N" by (rule mult_le_mono1)
    also have "\<dots> \<le> ?n" by simp
    finally have "k * N + N \<le> ?n" by simp
    then show "(window_mean N (xs @ [x]) k, e * len + (k + 1) * N) =
               (window_mean N xs k, e * len + (k + 1) * N)"
      by (simp add: window_mean_append)
  qed
  show ?case
  proof (cases "?n mod N = N - 1")
    case True
    note ds = div_step_report [OF assms True]
    have "(?n div N + 1) * N = Suc ?n" using ds(2) by (simp add: algebra_simps)
    then show ?thesis
      using True ds(1) keep
      by (simp add: spec_training_trace_snoc [OF assms] snoc.IH)
  next
    case False
    note d = div_step_quiet [OF assms False]
    show ?thesis
      using False d keep
      by (simp add: spec_training_trace_snoc [OF assms] snoc.IH)
  qed
qed

lemma map_filter_none:
  "(\<And>p. f (g p) = None) \<Longrightarrow> List.map_filter f (map g ps) = []"
  by (induction ps) (simp_all add: List.map_filter_simps)

lemma train_losses_val_events [simp]: "train_losses (val_events e vs) = []"
  unfolding train_losses_def val_events_def by (rule map_filter_none) (simp split: prod.splits)

lemma reports_of_val_events [simp]: "reports_of (val_events e vs) = []"
  unfolding reports_of_def val_events_def by (rule map_filter_none) (simp split: prod.splits)

lemma epoch_reports_of_val_events [simp]: "epoch_reports_of (val_events e vs) = []"
  unfolding epoch_reports_of_def val_events_def
  by (rule map_filter_none) (simp split: prod.splits)

lemma saves_of_val_events [simp]: "saves_of (val_events e vs) = []"
  unfolding saves_of_def val_events_def by (rule map_filter_none) (simp split: prod.splits)

lemma phases_val_batches:
  "phases (map (\<lambda>(j, v). Val_batch e j v) ps) = replicate (length ps) (3 * e + 1)"
  by (induction ps) (auto split: prod.splits)

lemma phases_val_events [simp]:
  "phases (val_events e vs) = replicate (length vs) (3 * e + 1)"
  by (simp add: val_events_def phases_val_batches)

lemma val_losses_simps [simp]:
  "val_losses [] = []"
  "val_losses (ev # evs) = (case val_loss_of ev of None \<Rightarrow> val_losses evs | Some p \<Rightarrow> p # val_losses evs)"
  "val_losses (xs @ ys) = val_losses xs @ val_losses ys"
  by (simp_all add: val_losses_def List.map_filter_simps map_filter_append split: option.splits)

lemma val_losses_val_batches:
  "val_losses (map (\<lambda>(j, v). Val_batch e j v) ps) = map snd ps"
  by (induction ps) (auto split: prod.splits)

lemma val_losses_val_events [simp]: "val_losses (val_events e vs) = vs"
  by (simp add: val_events_def val_losses_val_batches enumerate_eq_zip)

lemma val_losses_spec: "0 < N \<Longrightarrow> val_losses (spec_training_trace N e len ls) = []"
  by (induction ls rule: rev_induct) (simp_all add: spec_training_trace_snoc)

subsection \<open>One iteration of the epoch loop\<close>

lemmas run_defs = run_epochs_def epoch_body_def epoch_eval_def epoch_report_def track_best_def
  train_one_epoch_def train_batch_def gather_and_report_def validation_pass_def
  notebook_start_def emit_def sentinel_def Let_def

lemma epoch_report_fields:
  "trace (epoch_report al av w) =
     trace w @ [Print_loss al av, Add_scalars al av (epoch_number w + 1), Flush] @
       (if av < best_vloss w then [Save (epoch_number w) (model w)] else [])"
  "epoch_number (epoch_report al av w) = epoch_number w + 1"
  "best_vloss (epoch_report al av w) = (if av < best_vloss w then av else best_vloss w)"
  "files (epoch_report al av w) =
     (if av < best_vloss w then (files w)(epoch_number w \<mapsto> model w) else files w)"
  "model (epoch_report al av w) = model w"
  "var_i (epoch_report al av w) = var_i w"
  by (simp_all add: epoch_report_def track_best_def Let_def)

lemma epoch_body_cases:
  obtains (raised) err where "epoch_eval fw N trl vl w = Inl err" "epoch_body fw N trl vl w = Inl err"
  | (returned) al av w2 where "epoch_eval fw N trl vl w = Inr ((al, av), w2)"
      "epoch_body fw N trl vl w = Inr (epoch_report al av w2)"
proof (cases "epoch_eval fw N trl vl w")
  case (Inl err)
  then show ?thesis by (intro raised [of err]) (simp_all add: epoch_body_def)
next
  case (Inr p)
  obtain al av w2 where "p = ((al, av), w2)" by (cases p) auto
  with Inr show ?thesis by (intro returned [of al av w2]) (simp_all add: epoch_body_def)
qed

lemma epoch_eval_shape:
  fixes w :: "'m world"
  assumes "0 < N"
  shows "\<exists>ls vs. length ls \<le> length trl \<and> length vs \<le> length vl \<and>
           trace (after (epoch_eval fw N trl vl w)) =
             trace w @ Print_epoch (epoch_number w + 1) #
               spec_training_trace N (epoch_number w) (length trl) ls @
               val_events (epoch_number w) vs \<and>
           (\<forall>al av w2. epoch_eval fw N trl vl w = Inr ((al, av), w2) \<longrightarrow>
              length ls = length trl \<and> length vs = length vl \<and>
              al = (if length trl < N then 0 else window_mean N ls (length trl div N - 1)) \<and>
              (vl \<noteq> [] \<longrightarrow> av = sum_list vs / real (length vl)) \<and>
              (vl = [] \<longrightarrow> var_i w \<noteq> None \<and> av = 0))"
proof -
  let ?e = "epoch_number w"
  let ?w0 = "(emit [Print_epoch (?e + 1)] w)\<lparr>training := True\<rparr>"
  let ?t = "train_one_epoch fw N trl ?e ?w0"
  from train_one_epoch_shape [OF assms, of trl fw ?e ?w0]
  obtain ls where ls0: "length ls \<le> length trl \<and>
           trace (after ?t) = trace ?w0 @ spec_training_trace N ?e (length trl) ls \<and>
           (\<forall>al w'. ?t = Inr (al, w') \<longrightarrow>
              length ls = length trl \<and>
              al = (if length trl < N then 0 else window_mean N ls (length trl div N - 1)))"
    ..
  then have ls: "length ls \<le> length trl"
    "trace (after ?t) = trace w @ Print_epoch (?e + 1) # spec_training_trace N ?e (length trl) ls"
    "\<And>al w'. ?t = Inr (al, w') \<Longrightarrow> length ls = length trl \<and>
        al = (if length trl < N then 0 else window_mean N ls (length trl div N - 1))"
    by simp_all
  show ?thesis
  proof (cases ?t)
    case (Inl err)
    with ls(1,2) show ?thesis
      by (intro exI [of _ ls] exI [of _ "[]"]) (cases err, simp add: epoch_eval_def Let_def val_events_def)
  next
    case (Inr p)
    obtain al w1 where p: "p = (al, w1)" by (cases p)
    from train_one_epoch_frame [of ?w0 fw N trl ?e] Inr p
    have w1: "epoch_number w1 = ?e" "var_i w1 = var_i w"
      by (simp_all add: same_globals_def)
    from ls(2) Inr p
    have tr1: "trace w1 = trace w @ Print_epoch (?e + 1) # spec_training_trace N ?e (length trl) ls"
      by simp
    from ls(3) [of al w1] Inr p
    have al: "length ls = length trl"
      "al = (if length trl < N then 0 else window_mean N ls (length trl div N - 1))"
      by simp_all
    let ?v = "validation_pass fw vl w1"
    from validation_pass_shape [of vl fw w1]
    obtain vs where vs0: "length vs \<le> length vl \<and>
        trace (after ?v) = trace w1 @ val_events (epoch_number w1) vs \<and>
        (\<forall>av w'. ?v = Inr (av, w') \<longrightarrow>
           length vs = length vl \<and>
           (vl \<noteq> [] \<longrightarrow> av = sum_list vs / real (length vl)) \<and>
           (vl = [] \<longrightarrow> var_i w1 \<noteq> None \<and> av = 0))"
      ..
    then have vs: "length vs \<le> length vl"
      "trace (after ?v) = trace w @ Print_epoch (?e + 1) #
         spec_training_trace N ?e (length trl) ls @ val_events ?e vs"
      "\<And>av w'. ?v = Inr (av, w') \<Longrightarrow> length vs = length vl \<and>
           (vl \<noteq> [] \<longrightarrow> av = sum_list vs / real (length vl)) \<and>
           (vl = [] \<longrightarrow> var_i w \<noteq> None \<and> av = 0)"
      by (simp_all add: w1 tr1)
    show ?thesis
    proof (cases ?v)
      case (Inl err)
      with vs(1,2) al Inr p show ?thesis
        by (intro exI [of _ ls] exI [of _ vs]) (cases err, simp add: epoch_eval_def Let_def)
    next
      case vp: (Inr q)
      obtain av w2 where q: "q = (av, w2)" by (cases q)
      from vs(3) [of av w2] vp q
      have "length vs = length vl" "vl \<noteq> [] \<longrightarrow> av = sum_list vs / real (length vl)"
        "vl = [] \<longrightarrow> var_i w \<noteq> None \<and> av = 0"
        by simp_all
      with vs(1,2) al Inr p vp q show ?thesis
        by (intro exI [of _ ls] exI [of _ vs]) (simp add: epoch_eval_def Let_def)
    qed
  qed
qed

lemma epoch_eval_no_saves:
  fixes w :: "'m world"
  assumes "0 < N"
  shows "saves_of (new_events w (after (epoch_eval fw N trl vl w))) = [] \<and>
         epoch_reports_of (new_events w (after (epoch_eval fw N trl vl w))) = []"
proof -
  from epoch_eval_shape [OF assms, of trl vl fw w]
  obtain ls vs where
    "trace (after (epoch_eval fw N trl vl w)) =
       trace w @ Print_epoch (epoch_number w + 1) #
         spec_training_trace N (epoch_number w) (length trl) ls @ val_events (epoch_number w) vs"
    by blast
  then show ?thesis
    by (simp add: saves_of_spec [OF assms] epoch_reports_of_spec [OF assms])
qed

lemma epoch_body_tracker:
  assumes "0 < N" and "epoch_eval fw N trl vl w = Inr ((avg_loss, avg_vloss), w2)"
  shows "\<exists>w'. epoch_body fw N trl vl w = Inr w' \<and>
           (best_vloss w' \<noteq> best_vloss w \<longleftrightarrow> avg_vloss < best_vloss w) \<and>
           (saves_of (new_events w w') \<noteq> [] \<longleftrightarrow> avg_vloss < best_vloss w) \<and>
           (avg_vloss < best_vloss w \<longrightarrow>
              best_vloss w' = avg_vloss \<and>
              files w' = (files w)(epoch_number w \<mapsto> model w') \<and>
              saves_of (new_events w w') = [(epoch_number w, model w')]) \<and>
           (\<not> avg_vloss < best_vloss w \<longrightarrow>
              best_vloss w' = best_vloss w \<and> files w' = files w)"
proof -
  let ?w' = "epoch_report avg_loss avg_vloss w2"
  have body: "epoch_body fw N trl vl w = Inr ?w'"
    using assms(2) by (simp add: epoch_body_def)
  from epoch_eval_frame [of w fw N trl vl] assms(2)
  have g: "epoch_number w2 = epoch_number w" "best_vloss w2 = best_vloss w" "files w2 = files w"
    by (simp_all add: same_globals_def)
  from epoch_eval_shape [OF assms(1), of trl vl fw w] assms(2)
  obtain ls vs where tr2: "trace w2 = trace w @ Print_epoch (epoch_number w + 1) #
         spec_training_trace N (epoch_number w) (length trl) ls @ val_events (epoch_number w) vs"
    by auto
  have ne: "new_events w ?w' = Print_epoch (epoch_number w + 1) #
         spec_training_trace N (epoch_number w) (length trl) ls @ val_events (epoch_number w) vs @
         [Print_loss avg_loss avg_vloss, Add_scalars avg_loss avg_vloss (epoch_number w + 1), Flush] @
         (if avg_vloss < best_vloss w then [Save (epoch_number w) (model w2)] else [])"
    by (rule new_events_append) (simp add: epoch_report_fields tr2 g)
  have sv: "saves_of (new_events w ?w') =
      (if avg_vloss < best_vloss w then [(epoch_number w, model w2)] else [])"
    unfolding ne by (simp add: saves_of_spec [OF assms(1)])
  show ?thesis
    by (intro exI [of _ ?w'] conjI body) (simp_all add: sv epoch_report_fields g)
qed

lemma empty_validation_epoch:
  assumes "var_i w = None"
  shows "case train_one_epoch fw N trl (epoch_number w)
                ((emit [Print_epoch (epoch_number w + 1)] w)\<lparr>training := True\<rparr>) of
           Inl err \<Rightarrow> epoch_body fw N trl [] w = Inl err
         | Inr (avg_loss, w1) \<Rightarrow>
             epoch_body fw N trl [] w = Inl (NameError, w1\<lparr>training := False\<rparr>)"
proof -
  let ?w0 = "(emit [Print_epoch (epoch_number w + 1)] w)\<lparr>training := True\<rparr>"
  let ?t = "train_one_epoch fw N trl (epoch_number w) ?w0"
  show ?thesis
  proof (cases ?t)
    case (Inl err)
    then show ?thesis by (simp add: epoch_body_def epoch_eval_def Let_def)
  next
    case (Inr p)
    obtain al w1 where p: "p = (al, w1)" by (cases p)
    from train_one_epoch_frame [of ?w0 fw N trl "epoch_number w"] Inr p assms
    have "var_i w1 = None" by simp
    then have "validation_pass fw [] w1 = Inl (NameError, w1\<lparr>training := False\<rparr>)"
      by (simp add: validation_pass_def)
    with Inr p show ?thesis by (simp add: epoch_body_def epoch_eval_def Let_def)
  qed
qed

lemma empty_validation_aborts:
  fixes w :: "'m world"
  assumes "0 < N" "var_i w = None"
  shows "\<exists>err w'. epoch_body fw N trl [] w = Inl (err, w') \<and>
           epoch_reports_of (new_events w w') = [] \<and> saves_of (new_events w w') = [] \<and>
           best_vloss w' = best_vloss w \<and> files w' = files w \<and>
           epoch_number w' = epoch_number w \<and> var_i w' = None"
proof -
  let ?w0 = "(emit [Print_epoch (epoch_number w + 1)] w)\<lparr>training := True\<rparr>"
  let ?t = "train_one_epoch fw N trl (epoch_number w) ?w0"
  from empty_validation_epoch [OF assms(2), of fw N trl]
  obtain err w' where b: "epoch_body fw N trl [] w = Inl (err, w')"
    and v: "var_i w' = None"
    using train_one_epoch_frame [of ?w0 fw N trl "epoch_number w"] assms(2)
    by (cases ?t) (auto split: prod.splits)
  then have ev: "epoch_eval fw N trl [] w = Inl (err, w')"
    by (auto simp: epoch_body_def split: sum.splits)
  from epoch_eval_frame [of w fw N trl "[]"] ev have "same_globals w w'" by simp
  moreover from epoch_eval_no_saves [OF assms(1), of w fw trl "[]"] ev
  have "saves_of (new_events w w') = []" "epoch_reports_of (new_events w w') = []" by simp_all
  ultimately show ?thesis
    using b v by (intro exI [of _ err] exI [of _ w']) (simp add: same_globals_def)
qed

subsection \<open>Validation reads the model and leaves it alone\<close>

lemma validation_pass_rerun:
  assumes "validation_pass fw vl w = Inr (v, w1)"
  shows "\<exists>w2. validation_pass fw vl w1 = Inr (v, w2) \<and> model w2 = model w"
proof -
  let ?w0 = "w\<lparr>training := False\<rparr>"
  from assms obtain rv k where
    loop: "validation_loop fw 0 vl 0 ?w0 = Inr (rv, w1)" and k: "var_i w1 = Some k"
    and v: "v = rv / real (k + 1)"
    by (auto simp: validation_pass_def split: sum.splits option.splits)
  from validation_loop_frame [of ?w0 fw 0 vl 0] loop
  have f: "model w1 = model w" "training w1 = False" by simp_all
  from validation_loop_rerun [OF loop, of "w1\<lparr>training := False\<rparr>"] f
  obtain w2 where again: "validation_loop fw 0 vl 0 (w1\<lparr>training := False\<rparr>) = Inr (rv, w2)"
    by auto
  from validation_loop_frame [of "w1\<lparr>training := False\<rparr>" fw 0 vl 0] again f
  have m2: "model w2 = model w" by simp
  from validation_loop_shape [of vl fw 0 0 ?w0] loop
  have v1: "var_i w1 = (if vl = [] then var_i w else Some (length vl - 1))" by auto
  from validation_loop_shape [of vl fw 0 0 "w1\<lparr>training := False\<rparr>"] again
  have "var_i w2 = (if vl = [] then var_i w1 else Some (length vl - 1))" by auto
  with v1 k have "var_i w2 = Some k" by (simp split: if_splits)
  with again v m2 show ?thesis by (simp add: validation_pass_def)
qed

lemma tb_validation_loop_frame:
  "model (after (tb_validation_loop fw e j ds rv w)) = model w \<and>
   training (after (tb_validation_loop fw e j ds rv w)) = training w"
proof (induction ds arbitrary: j rv w)
  case Nil
  show ?case by simp
next
  case (Cons d ds)
  obtain x l where d: "d = (x, l)" by (cases d)
  show ?case
  proof (cases "forward fw (training w) (model w) x")
    case (Inl err)
    then show ?thesis by (simp add: d)
  next
    case out: (Inr out)
    show ?thesis
    proof (cases "loss_fn fw out l")
      case (Inl err)
      with out show ?thesis by (simp add: d)
    next
      case (Inr v)
      with out Cons.IH [where j = "j + 1" and rv = "rv + v" and w = "emit [Val_batch e j v] w"]
      show ?thesis by (simp add: d)
    qed
  qed
qed

lemma tb_validation_loop_rerun:
  assumes "tb_validation_loop fw e j ds rv w = Inr (rv', w')"
    and "model wa = model w" "training wa = training w"
  shows "\<exists>wa'. tb_validation_loop fw e j ds rv wa = Inr (rv', wa')"
  using assms
proof (induction ds arbitrary: j rv w wa)
  case Nil
  then show ?case by simp
next
  case (Cons d ds)
  obtain x l where d: "d = (x, l)" by (cases d)
  from Cons.prems(1) obtain out v where
    out: "forward fw (training w) (model w) x = Inr out" and
    v: "loss_fn fw out l = Inr v" and
    rest: "tb_validation_loop fw e (j + 1) ds (rv + v) (emit [Val_batch e j v] w) = Inr (rv', w')"
    by (auto simp: d split: sum.splits)
  from Cons.IH [OF rest, where wa = "emit [Val_batch e j v] wa"] Cons.prems(2,3)
  obtain wa' where "tb_validation_loop fw e (j + 1) ds (rv + v) (emit [Val_batch e j v] wa) = Inr (rv', wa')"
    by auto
  with out v Cons.prems(2,3) show ?case by (simp add: d)
qed

lemma tb_validation_frame:
  "model (after (tb_validation fw e vl w)) = model w"
proof (cases "tb_validation_loop fw e 0 vl 0 (w\<lparr>training := False\<rparr>)")
  case (Inl err)
  with tb_validation_loop_frame [of fw e 0 vl 0 "w\<lparr>training := False\<rparr>"] show ?thesis
    by (cases err) (simp add: tb_validation_def)
next
  case (Inr p)
  obtain rv w1 where "p = (rv, w1)" by (cases p)
  with Inr tb_validation_loop_frame [of fw e 0 vl 0 "w\<lparr>training := False\<rparr>"] show ?thesis
    by (simp add: tb_validation_def)
qed

lemma tb_validation_rerun:
  assumes "tb_validation fw e vl w = Inr (rv, w1)"
  shows "\<exists>w2. tb_validation fw e vl w1 = Inr (rv, w2) \<and> model w2 = model w"
proof -
  let ?w0 = "w\<lparr>training := False\<rparr>"
  from assms obtain w1' where
    loop: "tb_validation_loop fw e 0 vl 0 ?w0 = Inr (rv, w1')" and w1: "w1 = w1'\<lparr>training := True\<rparr>"
    by (auto simp: tb_validation_def split: sum.splits)
  from tb_validation_loop_frame [of fw e 0 vl 0 ?w0] loop
  have f: "model w1' = model w" by simp
  from tb_validation_loop_rerun [OF loop, of "w1\<lparr>training := False\<rparr>"] f w1
  obtain w2 where again: "tb_validation_loop fw e 0 vl 0 (w1\<lparr>training := False\<rparr>) = Inr (rv, w2)"
    by auto
  from tb_validation_loop_frame [of fw e 0 vl 0 "w1\<lparr>training := False\<rparr>"] again f w1
  have "model w2 = model w" by simp
  with again show ?thesis by (simp add: tb_validation_def)
qed

subsection \<open>A raise ends the loops\<close>

lemma train_loop_append:
  "train_loop fw N e len i (xs @ ys) r l0 w =
     (case train_loop fw N e len i xs r l0 w of
        Inl err \<Rightarrow> Inl err
      | Inr ((r1, l1), w1) \<Rightarrow> train_loop fw N e len (i + length xs) ys r1 l1 w1)"
  for w :: "'m world"
proof (induction xs arbitrary: i r l0 w)
  case Nil
  show ?case by simp
next
  case (Cons d xs)
  show ?case
  proof (cases "train_batch fw e i d w")
    case (Inl err)
    then show ?thesis by simp
  next
    case (Inr p)
    obtain loss w1 where p: "p = (loss, w1)" by (cases p)
    obtain r' l0' evs where g: "gather_and_report N e len i r l0 loss = (r', l0', evs :: 'm event list)"
      by (cases "gather_and_report N e len i r l0 loss :: real \<times> real \<times> 'm event list") auto
    from Cons.IH [where i = "i + 1" and r = r' and ?l0.0 = l0' and w = "emit evs w1"]
    show ?thesis by (simp add: Inr p g split: sum.splits prod.splits)
  qed
qed

lemma validation_loop_append:
  "validation_loop fw i (xs @ ys) rv w =
     (case validation_loop fw i xs rv w of
        Inl err \<Rightarrow> Inl err
      | Inr (rv1, w1) \<Rightarrow> validation_loop fw (i + length xs) ys rv1 w1)"
proof (induction xs arbitrary: i rv w)
  case Nil
  show ?case by simp
next
  case (Cons d xs)
  obtain x l where d: "d = (x, l)" by (cases d)
  show ?case
  proof (cases "forward fw (training w) (model w) x")
    case (Inl err)
    then show ?thesis by (simp add: d Let_def)
  next
    case out: (Inr out)
    show ?thesis
    proof (cases "loss_fn fw out l")
      case (Inl err)
      with out show ?thesis by (simp add: d Let_def)
    next
      case (Inr v)
      with out Cons.IH [where i = "i + 1" and rv = "rv + v"
          and w = "emit [Val_batch (epoch_number w) i v] (w\<lparr>var_i := Some i\<rparr>)"]
      show ?thesis by (simp add: d Let_def split: sum.splits prod.splits)
    qed
  qed
qed

lemma epochs_loop_add:
  "epochs_loop fw N trl vl (k + j) w =
     (case epochs_loop fw N trl vl k w of
        Inl err \<Rightarrow> Inl err
      | Inr w' \<Rightarrow> epochs_loop fw N trl vl j w')"
  by (induction k arbitrary: w) (simp_all split: sum.splits)

lemma train_batch_raises:
  "forward fw (training w) (model w) x = Inl e \<Longrightarrow>
     train_batch fw ep i (x, l) w = Inl (Raised e, w)"
  "forward fw (training w) (model w) x = Inr out \<Longrightarrow> loss_fn fw out l = Inl e \<Longrightarrow>
     train_batch fw ep i (x, l) w = Inl (Raised e, w)"
  "forward fw (training w) (model w) x = Inr out \<Longrightarrow> loss_fn fw out l = Inr v \<Longrightarrow>
     backward_step fw (training w) (model w) x l = Inl e \<Longrightarrow>
     train_batch fw ep i (x, l) w = Inl (Raised e, w)"
  by (simp_all add: train_batch_def)

lemma training_raise_aborts_run:
  assumes "run_epochs fw N (xs @ d # ys) vl k w0 = Inr wk"
    and "train_loop fw N (epoch_number wk) (length (xs @ d # ys)) 0 xs 0 0
           ((emit [Print_epoch (epoch_number wk + 1)] wk)\<lparr>training := True\<rparr>) = Inr (s, w1)"
    and "train_batch fw (epoch_number wk) (length xs) d w1 = Inl err"
  shows "run_epochs fw N (xs @ d # ys) vl (k + Suc j) w0 = Inl err"
proof -
  obtain r l where s: "s = (r, l)" by (cases s)
  have "train_loop fw N (epoch_number wk) (length (xs @ d # ys)) 0 (xs @ d # ys) 0 0
           ((emit [Print_epoch (epoch_number wk + 1)] wk)\<lparr>training := True\<rparr>) = Inl err"
    using assms(2,3) unfolding train_loop_append by (simp add: s)
  then have "epoch_body fw N (xs @ d # ys) vl wk = Inl err"
    by (simp add: epoch_body_def epoch_eval_def train_one_epoch_def Let_def)
  with assms(1) show ?thesis
    unfolding run_epochs_def epochs_loop_add by simp
qed

lemma validation_raise_aborts_run:
  assumes "run_epochs fw N trl (xs @ (x, l) # ys) k w0 = Inr wk"
    and "train_one_epoch fw N trl (epoch_number wk)
           ((emit [Print_epoch (epoch_number wk + 1)] wk)\<lparr>training := True\<rparr>) = Inr (al, w1)"
    and "validation_loop fw 0 xs 0 (w1\<lparr>training := False\<rparr>) = Inr (rv, w2)"
    and "forward fw False (model w2) x = Inl e \<or>
         (\<exists>out. forward fw False (model w2) x = Inr out \<and> loss_fn fw out l = Inl e)"
  shows "run_epochs fw N trl (xs @ (x, l) # ys) (k + Suc j) w0 =
         Inl (Raised e, w2\<lparr>var_i := Some (length xs)\<rparr>)"
proof -
  from validation_loop_frame [of "w1\<lparr>training := False\<rparr>" fw 0 xs 0] assms(3)
  have t2: "training w2 = False" by simp
  have "validation_loop fw (length xs) ((x, l) # ys) rv w2 =
          Inl (Raised e, w2\<lparr>var_i := Some (length xs)\<rparr>)"
    using assms(4) t2 by (auto simp: Let_def)
  then have "validation_loop fw 0 (xs @ (x, l) # ys) 0 (w1\<lparr>training := False\<rparr>) =
          Inl (Raised e, w2\<lparr>var_i := Some (length xs)\<rparr>)"
    using assms(3) unfolding validation_loop_append by simp
  then have "epoch_body fw N trl (xs @ (x, l) # ys) wk =
          Inl (Raised e, w2\<lparr>var_i := Some (length xs)\<rparr>)"
    using assms(2) by (simp add: epoch_body_def epoch_eval_def validation_pass_def Let_def)
  with assms(1) show ?thesis
    unfolding run_epochs_def epochs_loop_add by simp
qed

subsection \<open>The order of events within an epoch and across a run\<close>

lemma epoch_body_shape:
  fixes w :: "'m world"
  assumes "0 < N"
  shows "\<exists>ls vs R. length ls \<le> length trl \<and> length vs \<le> length vl \<and>
           trace (after_run (epoch_body fw N trl vl w)) =
             trace w @ Print_epoch (epoch_number w + 1) #
               spec_training_trace N (epoch_number w) (length trl) ls @
               val_events (epoch_number w) vs @ R \<and>
           reports_of R = [] \<and> train_losses R = [] \<and> val_losses R = [] \<and>
           (phases R = [] \<or> phases R = [3 * epoch_number w + 2])"
proof -
  let ?e = "epoch_number w"
  from epoch_eval_shape [OF assms, of trl vl fw w]
  obtain ls vs where s: "length ls \<le> length trl" "length vs \<le> length vl"
    "trace (after (epoch_eval fw N trl vl w)) =
       trace w @ Print_epoch (?e + 1) # spec_training_trace N ?e (length trl) ls @ val_events ?e vs"
    by blast
  show ?thesis
  proof (cases rule: epoch_body_cases [of fw N trl vl w])
    case (raised err)
    obtain x w' where "err = (x, w')" by (cases err)
    with raised s show ?thesis
      by (intro exI [of _ ls] exI [of _ vs] exI [of _ "[]"]) simp
  next
    case (returned al av w2)
    from epoch_eval_frame [of w fw N trl vl] returned(1)
    have g: "epoch_number w2 = ?e" by (simp add: same_globals_def)
    let ?R = "[Print_loss al av, Add_scalars al av (?e + 1), Flush] @
       (if av < best_vloss w2 then [Save ?e (model w2)] else [])"
    from returned s(3)
    have "trace (after_run (epoch_body fw N trl vl w)) =
       trace w @ Print_epoch (?e + 1) # spec_training_trace N ?e (length trl) ls @
         val_events ?e vs @ ?R"
      by (simp add: epoch_report_fields g)
    with s(1,2) show ?thesis
      by (intro exI [of _ ls] exI [of _ vs] exI [of _ ?R]) simp
  qed
qed

lemma steps_increasing:
  assumes "0 < N"
  shows "sorted_wrt (<) (map (\<lambda>k. b + (k + 1) * N) [0..<m])"
proof -
  have "sorted_wrt (\<lambda>x y. b + (x + 1) * N < b + (y + 1) * N) [0..<m]"
    by (rule sorted_wrt_mono_rel [of _ "(<)"]) (use assms in simp_all)
  then show ?thesis by (simp add: sorted_wrt_map)
qed

lemma epoch_body_order:
  fixes w :: "'m world"
  assumes "0 < N"
  shows "\<exists>evs. trace (after_run (epoch_body fw N trl vl w)) = trace w @ evs \<and>
           sorted (phases evs) \<and>
           (\<forall>p \<in> set (phases evs). 3 * epoch_number w \<le> p \<and> p < 3 * epoch_number w + 3) \<and>
           sorted_wrt (<) (map snd (reports_of evs)) \<and>
           (\<forall>x \<in> set (map snd (reports_of evs)).
              epoch_number w * length trl < x \<and> x \<le> epoch_number w * length trl + length trl)"
proof -
  let ?e = "epoch_number w"
  from epoch_body_shape [OF assms, of trl vl fw w]
  obtain ls vs R where s: "length ls \<le> length trl"
    "trace (after_run (epoch_body fw N trl vl w)) =
       trace w @ Print_epoch (?e + 1) # spec_training_trace N ?e (length trl) ls @
         val_events ?e vs @ R"
    "reports_of R = []" "phases R = [] \<or> phases R = [3 * ?e + 2]"
    by blast
  let ?evs = "Print_epoch (?e + 1) # spec_training_trace N ?e (length trl) ls @ val_events ?e vs @ R"
  have ph: "phases ?evs = replicate (length ls) (3 * ?e) @ replicate (length vs) (3 * ?e + 1) @ phases R"
    by (simp add: phases_spec [OF assms])
  have rp: "map snd (reports_of ?evs) = map (\<lambda>k. ?e * length trl + (k + 1) * N) [0..<length ls div N]"
    by (simp add: reports_of_spec [OF assms] s(3) comp_def)
  have 1: "sorted (phases ?evs)"
    unfolding ph using s(4) by (auto simp: sorted_append)
  have 2: "\<forall>p \<in> set (phases ?evs). 3 * ?e \<le> p \<and> p < 3 * ?e + 3"
    unfolding ph using s(4) by auto
  have 3: "sorted_wrt (<) (map snd (reports_of ?evs))"
    unfolding rp by (rule steps_increasing [OF assms])
  have 4: "\<forall>x \<in> set (map snd (reports_of ?evs)).
      ?e * length trl < x \<and> x \<le> ?e * length trl + length trl"
  proof
    fix x assume "x \<in> set (map snd (reports_of ?evs))"
    then obtain k where k: "k < length ls div N" "x = ?e * length trl + (k + 1) * N"
      unfolding rp by auto
    from k(1) have "Suc k \<le> length ls div N" by simp
    then have "Suc k * N \<le> length ls div N * N" by (rule mult_le_mono1)
    also have "\<dots> \<le> length ls" by simp
    finally have "(k + 1) * N \<le> length trl" using s(1) by simp
    moreover have "0 < (k + 1) * N" using assms by simp
    ultimately show "?e * length trl < x \<and> x \<le> ?e * length trl + length trl"
      using k(2) by simp
  qed
  from s(2) 1 2 3 4 show ?thesis by (intro exI [of _ ?evs] conjI)
qed

lemma epochs_loop_order:
  fixes w :: "'m world"
  assumes "0 < N"
  shows "\<exists>evs. trace (after_run (epochs_loop fw N trl vl k w)) = trace w @ evs \<and>
           sorted (phases evs) \<and>
           (\<forall>p \<in> set (phases evs). 3 * epoch_number w \<le> p) \<and>
           sorted_wrt (<) (map snd (reports_of evs)) \<and>
           (\<forall>x \<in> set (map snd (reports_of evs)). epoch_number w * length trl < x)"
proof (induction k arbitrary: w)
  case 0
  show ?case by (intro exI [of _ "[]"]) simp
next
  case (Suc k)
  let ?e = "epoch_number w"
  from epoch_body_order [OF assms, of fw trl vl w]
  obtain evs1 where 1: "trace (after_run (epoch_body fw N trl vl w)) = trace w @ evs1"
    "sorted (phases evs1)"
    "\<forall>p \<in> set (phases evs1). 3 * ?e \<le> p \<and> p < 3 * ?e + 3"
    "sorted_wrt (<) (map snd (reports_of evs1))"
    "\<forall>x \<in> set (map snd (reports_of evs1)). ?e * length trl < x \<and> x \<le> ?e * length trl + length trl"
    by blast
  show ?case
  proof (cases "epoch_body fw N trl vl w")
    case (Inl err)
    with 1 show ?thesis by (intro exI [of _ evs1]) auto
  next
    case (Inr w1)
    from epoch_body_counter [OF Inr] have e1: "epoch_number w1 = ?e + 1" .
    from Suc.IH [of w1]
    obtain evs2 where 2: "trace (after_run (epochs_loop fw N trl vl k w1)) = trace w1 @ evs2"
      "sorted (phases evs2)"
      "\<forall>p \<in> set (phases evs2). 3 * epoch_number w1 \<le> p"
      "sorted_wrt (<) (map snd (reports_of evs2))"
      "\<forall>x \<in> set (map snd (reports_of evs2)). epoch_number w1 * length trl < x"
      by blast
    from 1(1) Inr have t1: "trace w1 = trace w @ evs1" by simp
    have a: "trace (after_run (epochs_loop fw N trl vl (Suc k) w)) = trace w @ evs1 @ evs2"
      using Inr 2(1) t1 by simp
    have b: "sorted (phases (evs1 @ evs2))"
      using 1(2,3) 2(2,3) e1 by (fastforce simp: sorted_append)
    have c: "\<forall>p \<in> set (phases (evs1 @ evs2)). 3 * ?e \<le> p"
      using 1(3) 2(3) e1 by fastforce
    have d: "sorted_wrt (<) (map snd (reports_of (evs1 @ evs2)))"
      using 1(4,5) 2(4,5) e1 by (fastforce simp: sorted_wrt_append)
    have e: "\<forall>x \<in> set (map snd (reports_of (evs1 @ evs2))). ?e * length trl < x"
    proof
      fix x assume "x \<in> set (map snd (reports_of (evs1 @ evs2)))"
      then consider "x \<in> set (map snd (reports_of evs1))" | "x \<in> set (map snd (reports_of evs2))"
        by auto
      then show "?e * length trl < x"
      proof cases
        case 1
        with \<open>\<forall>x \<in> set (map snd (reports_of evs1)). _\<close> show ?thesis by blast
      next
        case 2
        with \<open>\<forall>x \<in> set (map snd (reports_of evs2)). _\<close> have "epoch_number w1 * length trl < x"
          by blast
        then show ?thesis using e1 by simp
      qed
    qed
    from a b c d e show ?thesis by (intro exI [of _ "evs1 @ evs2"] conjI)
  qed
qed

lemmas tb_defs = tb_cell_def tb_report_def tb_validation_def train_batch_def notebook_start_def
  emit_def Let_def

subsection \<open>The reports of a training pass\<close>

lemma train_one_epoch_trace:
  fixes w :: "'m world"
  assumes "0 < N"
  shows "new_events w (after (train_one_epoch fw N trl e w)) =
           spec_training_trace N e (length trl)
             (train_losses (new_events w (after (train_one_epoch fw N trl e w)))) \<and>
         length (train_losses (new_events w (after (train_one_epoch fw N trl e w)))) \<le> length trl \<and>
         (\<forall>al w'. train_one_epoch fw N trl e w = Inr (al, w') \<longrightarrow>
            length (train_losses (new_events w w')) = length trl \<and>
            al = (if length trl < N then 0
                  else window_mean N (train_losses (new_events w w')) (length trl div N - 1)))"
proof -
  let ?r = "train_one_epoch fw N trl e w"
  from train_one_epoch_shape [OF assms, of trl fw e w]
  obtain ls where ls: "length ls \<le> length trl"
    "trace (after ?r) = trace w @ spec_training_trace N e (length trl) ls"
    "\<And>al w'. ?r = Inr (al, w') \<Longrightarrow> length ls = length trl \<and>
        al = (if length trl < N then 0 else window_mean N ls (length trl div N - 1))"
    by blast
  from ls(2) have ne: "new_events w (after ?r) = spec_training_trace N e (length trl) ls"
    by (rule new_events_append)
  have tl: "train_losses (new_events w (after ?r)) = ls"
    unfolding ne by (rule train_losses_spec [OF assms])
  show ?thesis
  proof (intro conjI allI impI)
    show "new_events w (after ?r) =
        spec_training_trace N e (length trl) (train_losses (new_events w (after ?r)))"
      unfolding tl by (rule ne)
    show "length (train_losses (new_events w (after ?r))) \<le> length trl"
      unfolding tl by (rule ls(1))
  next
    fix al w' assume r: "?r = Inr (al, w')"
    with tl have tl': "train_losses (new_events w w') = ls" by simp
    from ls(3) [OF r] show "length (train_losses (new_events w w')) = length trl"
      and "al = (if length trl < N then 0
                  else window_mean N (train_losses (new_events w w')) (length trl div N - 1))"
      unfolding tl' by simp_all
  qed
qed

lemma filter_is_report_spec:
  "0 < N \<Longrightarrow> filter is_report (spec_training_trace N e len ls :: 'm event list) =
     map (\<lambda>(v, x). Add_scalar v x) (reports_of (spec_training_trace N e len ls :: 'm event list))"
  by (induction ls rule: rev_induct) (simp_all add: spec_training_trace_snoc)

lemma filter_is_report_val_events [simp]: "filter is_report (val_events e vs) = []"
  by (simp add: val_events_def filter_empty_conv enumerate_eq_zip split: prod.splits)

lemma epoch_body_returned_trace:
  fixes w :: "'m world"
  assumes "0 < N" "epoch_body fw N trl vl w = Inr w'"
  shows "\<exists>ls vs al av. length ls = length trl \<and> length vs = length vl \<and>
           al = (if length trl < N then 0 else window_mean N ls (length trl div N - 1)) \<and>
           (vl \<noteq> [] \<longrightarrow> av = sum_list vs / real (length vl)) \<and>
           new_events w w' =
             Print_epoch (epoch_number w + 1) #
               spec_training_trace N (epoch_number w) (length trl) ls @
               val_events (epoch_number w) vs @
               [Print_loss al av, Add_scalars al av (epoch_number w + 1), Flush] @
               (if av < best_vloss w then [Save (epoch_number w) (model w')] else [])"
proof -
  let ?e = "epoch_number w"
  from assms(2) obtain al av w2 where
    ev: "epoch_eval fw N trl vl w = Inr ((al, av), w2)" and w': "w' = epoch_report al av w2"
    by (auto simp: epoch_body_def split: sum.splits)
  from epoch_eval_shape [OF assms(1), of trl vl fw w] ev
  obtain ls vs where s: "length ls = length trl" "length vs = length vl"
    "trace w2 = trace w @ Print_epoch (?e + 1) # spec_training_trace N ?e (length trl) ls @
       val_events ?e vs"
    "al = (if length trl < N then 0 else window_mean N ls (length trl div N - 1))"
    "vl \<noteq> [] \<longrightarrow> av = sum_list vs / real (length vl)"
    by auto
  from epoch_eval_frame [of w fw N trl vl] ev
  have g: "epoch_number w2 = ?e" "best_vloss w2 = best_vloss w"
    by (simp_all add: same_globals_def)
  have "new_events w w' =
             Print_epoch (?e + 1) # spec_training_trace N ?e (length trl) ls @ val_events ?e vs @
               [Print_loss al av, Add_scalars al av (?e + 1), Flush] @
               (if av < best_vloss w then [Save ?e (model w')] else [])"
    by (rule new_events_append) (simp add: w' epoch_report_fields s(3) g)
  with s show ?thesis
    by (intro exI [of _ ls] exI [of _ vs] exI [of _ al] exI [of _ av]) simp
qed

subsection \<open>The accumulator and the end-of-epoch value\<close>

lemma gather_and_report_cases:
  "case (gather_and_report N e len i r l0 x :: real \<times> real \<times> 'm event list) of
     (r', l0', evs) \<Rightarrow>
       if i mod N = N - 1 then r' = 0 \<and> reports_of evs = [(l0', e * len + i + 1)]
       else reports_of evs = [] \<and> l0' = l0"
  by (simp add: gather_and_report_def Let_def)

lemma train_loop_accumulator:
  fixes w :: "'m world"
  assumes "0 < N" "train_loop fw N e len 0 xs 0 0 w = Inr ((rl, ll), w')"
    and "length xs mod N = 0"
  shows "rl = 0"
proof -
  from train_loop_reporting [of xs fw N e len 0 0 0 w] assms(2)
  obtain ls where ls: "length ls = length xs"
    "(rl, ll) = fst (reporting N e len 0 ls 0 0 :: (real \<times> real) \<times> 'm event list)"
    by auto
  from assms(3) ls(1) have "length ls div N * N = length ls"
    by (simp add: mod_0_imp_dvd)
  with ls(2) show ?thesis
    by (simp add: reporting_closed [OF assms(1)])
qed

lemma train_one_epoch_reports:
  fixes w :: "'m world"
  assumes "0 < N"
  shows "reports_of (new_events w (after (train_one_epoch fw N trl e w))) =
         map (\<lambda>k. (window_mean N (train_losses (new_events w (after (train_one_epoch fw N trl e w)))) k,
                   e * length trl + (k + 1) * N))
           [0..<length (train_losses (new_events w (after (train_one_epoch fw N trl e w)))) div N]"
proof -
  let ?evs = "new_events w (after (train_one_epoch fw N trl e w))"
  from train_one_epoch_trace [OF assms, of w fw trl e]
  have "?evs = spec_training_trace N e (length trl) (train_losses ?evs)" by (rule conjunct1)
  then have "reports_of ?evs = reports_of (spec_training_trace N e (length trl) (train_losses ?evs) :: 'm event list)"
    by simp
  then show ?thesis
    by (simp only: reports_of_spec [OF assms])
qed

lemma epoch_body_returned_reports:
  fixes w :: "'m world"
  assumes "0 < N" "epoch_body fw N trl vl w = Inr w'"
  shows "length (train_losses (new_events w w')) = length trl \<and>
         reports_of (new_events w w') =
           map (\<lambda>k. (window_mean N (train_losses (new_events w w')) k,
                     epoch_number w * length trl + (k + 1) * N))
             [0..<length trl div N] \<and>
         (\<exists>av. epoch_reports_of (new_events w w') =
            [(if length trl < N then 0
              else window_mean N (train_losses (new_events w w')) (length trl div N - 1),
              av, epoch_number w + 1)])"
proof -
  let ?e = "epoch_number w"
  from epoch_body_returned_trace [OF assms]
  obtain ls vs al av where s: "length ls = length trl"
    "al = (if length trl < N then 0 else window_mean N ls (length trl div N - 1))"
    "new_events w w' = Print_epoch (?e + 1) # spec_training_trace N ?e (length trl) ls @
       val_events ?e vs @ [Print_loss al av, Add_scalars al av (?e + 1), Flush] @
       (if av < best_vloss w then [Save ?e (model w')] else [])"
    by blast
  have tl: "train_losses (new_events w w') = ls"
    unfolding s(3) by (simp add: train_losses_spec [OF assms(1)])
  have rp: "reports_of (new_events w w') =
      map (\<lambda>k. (window_mean N ls k, ?e * length trl + (k + 1) * N)) [0..<length trl div N]"
    unfolding s(3) by (simp add: reports_of_spec [OF assms(1)] s(1))
  have er: "epoch_reports_of (new_events w w') = [(al, av, ?e + 1)]"
    unfolding s(3) by (simp add: epoch_reports_of_spec [OF assms(1)])
  show ?thesis
    unfolding tl using s(1,2) rp er by (intro conjI exI [of _ av]) simp_all
qed


section \<open>The claims\<close>

text \<open>
  C9. For every number of epochs \<open>E\<close>, a run of the epoch cell that completes leaves the
  global epoch counter at its value before the run plus \<open>E\<close>; and the cell does complete
  whenever the framework never raises and the validation loader is not empty.
\<close>

theorem epoch_counter_after_run:
  "(\<forall>w'. run_epochs fw N trl vl E w = Inr w' \<longrightarrow> epoch_number w' = epoch_number w + E) \<and>
   (never_raises fw \<and> vl \<noteq> [] \<longrightarrow> (\<exists>w'. run_epochs fw N trl vl E w = Inr w'))"
proof (intro conjI impI allI)
  fix w'
  assume "run_epochs fw N trl vl E w = Inr w'"
  from epochs_loop_counter [OF this [unfolded run_epochs_def]]
  show "epoch_number w' = epoch_number w + E" by simp
next
  assume "never_raises fw \<and> vl \<noteq> []"
  then show "\<exists>w'. run_epochs fw N trl vl E w = Inr w'"
    unfolding run_epochs_def using epochs_loop_total by blast
qed

theorem epoch_counter_after_run_witness:
  "never_raises linear_fw \<and> [(1, 4)] \<noteq> ([] :: (int \<times> int) list) \<and>
   (\<exists>w'. run_epochs linear_fw 2 [(1, 2), (1, 5), (1, 13)] [(1, 4)] 2 (notebook_start 1) = Inr w' \<and>
         epoch_number w' = epoch_number (notebook_start (1::int)) + 2)"
proof -
  have nr: "never_raises linear_fw"
    by (simp add: never_raises_def linear_fw_def)
  note T = epoch_counter_after_run [where fw = linear_fw and N = 2
      and trl = "[(1, 2), (1, 5), (1, 13)]" and vl = "[(1, 4)]" and E = 2
      and w = "notebook_start 1"]
  have "\<exists>w'. run_epochs linear_fw 2 [(1, 2), (1, 5), (1, 13)] [(1, 4)] 2 (notebook_start 1) = Inr w'"
    using conjunct2 [OF T] nr by simp
  then obtain w' where
    r: "run_epochs linear_fw 2 [(1, 2), (1, 5), (1, 13)] [(1, 4)] 2 (notebook_start 1) = Inr w'"
    ..
  have e: "epoch_number w' = epoch_number (notebook_start (1::int)) + 2"
    using conjunct1 [OF T, rule_format, OF r] .
  show ?thesis
    using nr r e by (intro conjI exI [of _ w']) simp_all
qed

text \<open>
  C3. In an epoch whose training and validation passes complete, the best-so-far
  threshold changes if and only if the epoch's mean validation loss is strictly less than
  the previous best, and a snapshot is saved if and only if that is so: when it is, the
  threshold becomes the new mean and the current model state is saved under the epoch
  number; when it is not, both the threshold and the saved files stay as they were.
\<close>

theorem best_snapshot_replaced_iff:
  assumes "0 < N" and "epoch_eval fw N trl vl w = Inr ((avg_loss, avg_vloss), w2)"
  shows "\<exists>w'. epoch_body fw N trl vl w = Inr w' \<and>
           (best_vloss w' \<noteq> best_vloss w \<longleftrightarrow> avg_vloss < best_vloss w) \<and>
           (saves_of (new_events w w') \<noteq> [] \<longleftrightarrow> avg_vloss < best_vloss w) \<and>
           (avg_vloss < best_vloss w \<longrightarrow>
              best_vloss w' = avg_vloss \<and>
              files w' = (files w)(epoch_number w \<mapsto> model w') \<and>
              saves_of (new_events w w') = [(epoch_number w, model w')]) \<and>
           (\<not> avg_vloss < best_vloss w \<longrightarrow>
              best_vloss w' = best_vloss w \<and> files w' = files w)"
  using epoch_body_tracker [OF assms] .

theorem best_snapshot_replaced_iff_witness:
  "(0::nat) < 2 \<and>
   (\<exists>w2. epoch_eval linear_fw 2 [(1, 2), (1, 5), (1, 13)] [(1, 4)]
           ((notebook_start 1)\<lparr>best_vloss := 7\<rparr>) = Inr ((2, 0), w2)) \<and>
   (\<exists>w'. epoch_body linear_fw 2 [(1, 2), (1, 5), (1, 13)] [(1, 4)]
           ((notebook_start 1)\<lparr>best_vloss := 7\<rparr>) = Inr w' \<and>
         best_vloss w' = 0 \<and> files w' = [0 \<mapsto> model w'] \<and>
         saves_of (new_events ((notebook_start 1)\<lparr>best_vloss := 7\<rparr>) w') = [(0, model w')])"
proof -
  let ?w = "(notebook_start (1::int))\<lparr>best_vloss := 7\<rparr>"
  have ev: "\<exists>w2. epoch_eval linear_fw 2 [(1, 2), (1, 5), (1, 13)] [(1, 4)] ?w = Inr ((2, 0), w2)"
    by (simp add: run_defs linear_fw_def)
  then obtain w2 where
    w2: "epoch_eval linear_fw 2 [(1, 2), (1, 5), (1, 13)] [(1, 4)] ?w = Inr ((2, 0), w2)" ..
  have pos: "(0::nat) < 2" by simp
  from best_snapshot_replaced_iff [OF pos w2]
  obtain w' where w': "epoch_body linear_fw 2 [(1, 2), (1, 5), (1, 13)] [(1, 4)] ?w = Inr w'"
    "0 < best_vloss ?w \<longrightarrow> best_vloss w' = 0 \<and>
       files w' = (files ?w)(epoch_number ?w \<mapsto> model w') \<and>
       saves_of (new_events ?w w') = [(epoch_number ?w, model w')]"
    by (elim exE conjE)
  from w'(2) have "best_vloss w' = 0" "files w' = [0 \<mapsto> model w']"
    "saves_of (new_events ?w w') = [(0, model w')]"
    by (simp_all add: notebook_start_def)
  with w'(1) have body: "\<exists>w'. epoch_body linear_fw 2 [(1, 2), (1, 5), (1, 13)] [(1, 4)] ?w = Inr w' \<and>
         best_vloss w' = 0 \<and> files w' = [0 \<mapsto> model w'] \<and>
         saves_of (new_events ?w w') = [(0, model w')]"
    by (intro exI [of _ w']) simp
  show ?thesis by (rule conjI [OF pos conjI [OF ev body]])
qed

text \<open>
  C5, as stated, fails: the sentinel is the constant 1000000, not a value above every
  loss. With a single validation batch whose loss is 2000000 the first epoch's mean is
  not below the sentinel, the tracker keeps the sentinel and nothing is saved.
\<close>

theorem sentinel_not_above_every_loss:
  "run_epochs linear_fw 1000 [(1, 2)] [(1, 2000002)] 1 (notebook_start 1) =
     Inr \<lparr>model = 2, training = False, epoch_number = 1, best_vloss = sentinel, var_i = Some 0,
          trace = [Print_epoch 1, Train_batch 0 0 1, Val_batch 0 0 2000000,
                   Print_loss 0 2000000, Add_scalars 0 2000000 1, Flush],
          files = Map.empty\<rparr>"
  by (simp add: run_defs linear_fw_def)

text \<open>
  C5, amended. The run starts with the tracker at 1000000, and the first epoch, when it
  completes with mean validation loss \<open>v\<close>, replaces the tracker and saves a snapshot
  exactly when \<open>v < 1000000\<close>; otherwise the tracker stays at 1000000 and nothing is
  saved.
\<close>

theorem first_epoch_replaces_iff_below_sentinel:
  assumes "0 < N"
    and "epoch_eval fw N trl vl (w\<lparr>best_vloss := sentinel\<rparr>) = Inr ((avg_loss, v), w2)"
  shows "\<exists>w1. epoch_body fw N trl vl (w\<lparr>best_vloss := sentinel\<rparr>) = Inr w1 \<and>
           run_epochs fw N trl vl (Suc k) w = epochs_loop fw N trl vl k w1 \<and>
           (v < 1000000 \<longrightarrow>
              best_vloss w1 = v \<and> files w1 = (files w)(epoch_number w \<mapsto> model w1) \<and>
              saves_of (new_events w w1) = [(epoch_number w, model w1)]) \<and>
           (\<not> v < 1000000 \<longrightarrow>
              best_vloss w1 = 1000000 \<and> files w1 = files w \<and> saves_of (new_events w w1) = [])"
proof -
  let ?w = "w\<lparr>best_vloss := sentinel\<rparr>"
  from epoch_body_tracker [OF assms]
  obtain w1 where w1: "epoch_body fw N trl vl ?w = Inr w1"
    "saves_of (new_events ?w w1) \<noteq> [] \<longleftrightarrow> v < best_vloss ?w"
    "v < best_vloss ?w \<longrightarrow>
       best_vloss w1 = v \<and> files w1 = (files ?w)(epoch_number ?w \<mapsto> model w1) \<and>
       saves_of (new_events ?w w1) = [(epoch_number ?w, model w1)]"
    "\<not> v < best_vloss ?w \<longrightarrow> best_vloss w1 = best_vloss ?w \<and> files w1 = files ?w"
    by (elim exE conjE)
  have ne: "new_events ?w w1 = new_events w w1" by (simp add: new_events_def)
  have run: "run_epochs fw N trl vl (Suc k) w = epochs_loop fw N trl vl k w1"
    by (simp add: run_epochs_def w1(1))
  show ?thesis
    using w1 run unfolding ne
    by (intro exI [of _ w1]) (auto simp: sentinel_def)
qed

theorem first_epoch_replaces_iff_below_sentinel_witness:
  "(0::nat) < 1000 \<and>
   (\<exists>w2. epoch_eval linear_fw 1000 [(1, 2)] [(1, 5)]
           ((notebook_start 1)\<lparr>best_vloss := sentinel\<rparr>) = Inr ((0, 3), w2)) \<and>
   (\<exists>w1. epoch_body linear_fw 1000 [(1, 2)] [(1, 5)]
           ((notebook_start 1)\<lparr>best_vloss := sentinel\<rparr>) = Inr w1 \<and>
         best_vloss w1 = 3 \<and> files w1 = [0 \<mapsto> model w1] \<and>
         saves_of (new_events (notebook_start 1) w1) = [(0, model w1)])"
proof -
  let ?w = "notebook_start (1::int)"
  have pos: "(0::nat) < 1000" by simp
  have ev: "\<exists>w2. epoch_eval linear_fw 1000 [(1, 2)] [(1, 5)] (?w\<lparr>best_vloss := sentinel\<rparr>) =
      Inr ((0, 3), w2)"
    by (simp add: run_defs linear_fw_def)
  then obtain w2 where
    w2: "epoch_eval linear_fw 1000 [(1, 2)] [(1, 5)] (?w\<lparr>best_vloss := sentinel\<rparr>) =
      Inr ((0, 3), w2)" ..
  from first_epoch_replaces_iff_below_sentinel [OF pos w2, where k = 0]
  obtain w1 where w1: "epoch_body linear_fw 1000 [(1, 2)] [(1, 5)] (?w\<lparr>best_vloss := sentinel\<rparr>) = Inr w1"
    "(3::real) < 1000000 \<longrightarrow>
       best_vloss w1 = 3 \<and> files w1 = (files ?w)(epoch_number ?w \<mapsto> model w1) \<and>
       saves_of (new_events ?w w1) = [(epoch_number ?w, model w1)]"
    by (elim exE conjE)
  from w1(2) have "best_vloss w1 = 3" "files w1 = [0 \<mapsto> model w1]"
    "saves_of (new_events ?w w1) = [(0, model w1)]"
    by (simp_all add: notebook_start_def)
  with w1(1) have body: "\<exists>w1. epoch_body linear_fw 1000 [(1, 2)] [(1, 5)]
           (?w\<lparr>best_vloss := sentinel\<rparr>) = Inr w1 \<and>
         best_vloss w1 = 3 \<and> files w1 = [0 \<mapsto> model w1] \<and>
         saves_of (new_events ?w w1) = [(0, model w1)]"
    by (intro exI [of _ w1]) simp
  show ?thesis by (rule conjI [OF pos conjI [OF ev body]])
qed

text \<open>
  C10, as stated, fails: the divisor reads the module-level \<^verbatim>\<open>i\<close>, and an empty loader
  leaves it as it was. When an earlier validation loop of the cell has bound it (here to
  2), the epoch with an empty loader raises nothing: the mean is \<open>0 / (2 + 1) = 0\<close>, the
  end-of-epoch data point is written, the tracker is replaced and a snapshot is saved.
\<close>

theorem stale_index_hides_empty_validation:
  "run_epochs linear_fw 1000 [(1, 2)] [] 1 ((notebook_start 1)\<lparr>var_i := Some 2\<rparr>) =
     Inr \<lparr>model = 2, training = False, epoch_number = 1, best_vloss = 0, var_i = Some 2,
          trace = [Print_epoch 1, Train_batch 0 0 1, Print_loss 0 0, Add_scalars 0 0 1, Flush,
                   Save 0 2],
          files = [0 \<mapsto> 2]\<rparr>"
  by (simp add: run_defs linear_fw_def)

text \<open>
  C10, amended. With an empty validation loader and the global \<^verbatim>\<open>i\<close> still unbound (as
  it is when the notebook is run from the top), an epoch whose training pass returns
  raises NameError at \<^verbatim>\<open>running_vloss / (i + 1)\<close>; in every case the epoch ends in an
  error before any end-of-epoch data point is written, with the tracker, the saved files
  and the epoch counter untouched and \<^verbatim>\<open>i\<close> still unbound, so the whole run aborts in
  its first epoch.
\<close>

theorem empty_validation_raises:
  fixes w :: "'m world"
  assumes "0 < N" "var_i w = None"
  shows "(case train_one_epoch fw N trl (epoch_number w)
                ((emit [Print_epoch (epoch_number w + 1)] w)\<lparr>training := True\<rparr>) of
            Inl err \<Rightarrow> epoch_body fw N trl [] w = Inl err
          | Inr (avg_loss, w1) \<Rightarrow>
              epoch_body fw N trl [] w = Inl (NameError, w1\<lparr>training := False\<rparr>)) \<and>
         (\<exists>err w'. epoch_body fw N trl [] w = Inl (err, w') \<and>
            epoch_reports_of (new_events w w') = [] \<and> saves_of (new_events w w') = [] \<and>
            best_vloss w' = best_vloss w \<and> files w' = files w \<and>
            epoch_number w' = epoch_number w \<and> var_i w' = None) \<and>
         (\<exists>err w'. run_epochs fw N trl [] (Suc k) w = Inl (err, w'))"
proof (intro conjI)
  show "case train_one_epoch fw N trl (epoch_number w)
                ((emit [Print_epoch (epoch_number w + 1)] w)\<lparr>training := True\<rparr>) of
            Inl err \<Rightarrow> epoch_body fw N trl [] w = Inl err
          | Inr (avg_loss, w1) \<Rightarrow>
              epoch_body fw N trl [] w = Inl (NameError, w1\<lparr>training := False\<rparr>)"
    by (rule empty_validation_epoch [OF assms(2)])
  show "\<exists>err w'. epoch_body fw N trl [] w = Inl (err, w') \<and>
            epoch_reports_of (new_events w w') = [] \<and> saves_of (new_events w w') = [] \<and>
            best_vloss w' = best_vloss w \<and> files w' = files w \<and>
            epoch_number w' = epoch_number w \<and> var_i w' = None"
    by (rule empty_validation_aborts [OF assms])
  have "var_i (w\<lparr>best_vloss := sentinel\<rparr>) = None" using assms(2) by simp
  from empty_validation_aborts [OF assms(1) this, of fw trl]
  obtain err w' where "epoch_body fw N trl [] (w\<lparr>best_vloss := sentinel\<rparr>) = Inl (err, w')"
    by blast
  then show "\<exists>err w'. run_epochs fw N trl [] (Suc k) w = Inl (err, w')"
    by (simp add: run_epochs_def)
qed

theorem empty_validation_raises_witness:
  "(0::nat) < 1000 \<and> var_i (notebook_start (1::int)) = None \<and>
   epoch_body linear_fw 1000 [(1, 2)] [] (notebook_start 1) =
     Inl (NameError,
          \<lparr>model = 2, training = False, epoch_number = 0, best_vloss = 0, var_i = None,
           trace = [Print_epoch 1, Train_batch 0 0 1], files = Map.empty\<rparr>)"
proof -
  have pos: "(0::nat) < 1000" by simp
  have none: "var_i (notebook_start (1::int)) = None" by (simp add: notebook_start_def)
  from conjunct1 [OF empty_validation_raises [OF pos none, where fw = linear_fw
        and trl = "[(1, 2)]" and k = 0]]
  have "epoch_body linear_fw 1000 [(1, 2)] [] (notebook_start 1) =
     Inl (NameError,
          \<lparr>model = 2, training = False, epoch_number = 0, best_vloss = 0, var_i = None,
           trace = [Print_epoch 1, Train_batch 0 0 1], files = Map.empty\<rparr>)"
    by (simp add: train_one_epoch_def train_batch_def gather_and_report_def notebook_start_def
        emit_def linear_fw_def Let_def)
  with pos none show ?thesis by (intro conjI)
qed

text \<open>
  C4. A validation pass, in either notebook, leaves the model state as it found it,
  whether it returns or raises; and a pass that returned, run again on the world it
  left, returns the same value (the mean validation loss in the epoch cell, the summed
  loss that the TensorBoard cell divides by the loader's length).
\<close>

theorem validation_is_read_only:
  "model (after (validation_pass fw vl w)) = model w \<and>
   (\<forall>v w1. validation_pass fw vl w = Inr (v, w1) \<longrightarrow>
      (\<exists>w2. validation_pass fw vl w1 = Inr (v, w2) \<and> model w2 = model w)) \<and>
   model (after (tb_validation fw e vl w)) = model w \<and>
   (\<forall>rv w1. tb_validation fw e vl w = Inr (rv, w1) \<longrightarrow>
      (\<exists>w2. tb_validation fw e vl w1 = Inr (rv, w2) \<and> model w2 = model w))"
  using validation_pass_frame [of w fw vl] validation_pass_rerun [of fw vl w]
    tb_validation_frame [of fw e vl w] tb_validation_rerun [of fw e vl w]
  by (intro conjI allI impI) simp_all

theorem validation_is_read_only_witness:
  "\<exists>w1 w2. validation_pass linear_fw [(1, 4), (2, 3)] (notebook_start 3) = Inr (2, w1) \<and>
           validation_pass linear_fw [(1, 4), (2, 3)] w1 = Inr (2, w2) \<and>
           model w1 = 3 \<and> model w2 = 3"
proof -
  let ?w = "notebook_start (3::int)"
  have "\<exists>w1. validation_pass linear_fw [(1, 4), (2, 3)] ?w = Inr (2, w1)"
    by (simp add: validation_pass_def notebook_start_def emit_def linear_fw_def Let_def)
  then obtain w1 where 1: "validation_pass linear_fw [(1, 4), (2, 3)] ?w = Inr (2, w1)" ..
  note T = validation_is_read_only [where fw = linear_fw and vl = "[(1, 4), (2, 3)]" and w = ?w]
  from conjunct1 [OF T] 1 have m1: "model w1 = 3" by (simp add: notebook_start_def)
  from conjunct1 [OF conjunct2 [OF T], rule_format, OF 1]
  obtain w2 where 2: "validation_pass linear_fw [(1, 4), (2, 3)] w1 = Inr (2, w2)"
    and "model w2 = model ?w"
    by (elim exE conjE)
  then have m2: "model w2 = 3" by (simp add: notebook_start_def)
  from 1 2 m1 m2 show ?thesis by (intro exI [of _ w1] exI [of _ w2] conjI)
qed

text \<open>
  C8. An error raised by the scoring function, the loss function or the update step
  leaves \<open>train_batch\<close> as that same error, with the world as the batch found it. If,
  after \<open>k\<close> completed epochs, the training batches \<open>xs\<close> succeed and the next batch
  raises, the run of \<open>k + 1 + j\<close> epochs over any further batches \<open>ys\<close> is that error
  in that world: nothing is caught, retried or processed afterwards. The same holds for
  a raise in the validation loop.
\<close>

theorem errors_propagate_and_abort:
  "(forward fw (training w) (model w) x = Inl e \<longrightarrow>
      train_batch fw ep i (x, l) w = Inl (Raised e, w)) \<and>
   (\<forall>out. forward fw (training w) (model w) x = Inr out \<and> loss_fn fw out l = Inl e \<longrightarrow>
      train_batch fw ep i (x, l) w = Inl (Raised e, w)) \<and>
   (\<forall>out v. forward fw (training w) (model w) x = Inr out \<and> loss_fn fw out l = Inr v \<and>
        backward_step fw (training w) (model w) x l = Inl e \<longrightarrow>
      train_batch fw ep i (x, l) w = Inl (Raised e, w)) \<and>
   (\<forall>wk s w1 err.
      run_epochs fw N (xs @ d # ys) vl k w0 = Inr wk \<and>
      train_loop fw N (epoch_number wk) (length (xs @ d # ys)) 0 xs 0 0
        ((emit [Print_epoch (epoch_number wk + 1)] wk)\<lparr>training := True\<rparr>) = Inr (s, w1) \<and>
      train_batch fw (epoch_number wk) (length xs) d w1 = Inl err \<longrightarrow>
      run_epochs fw N (xs @ d # ys) vl (k + Suc j) w0 = Inl err) \<and>
   (\<forall>wk al w1 rv w2.
      run_epochs fw N trl (vxs @ (x, l) # vys) k w0 = Inr wk \<and>
      train_one_epoch fw N trl (epoch_number wk)
        ((emit [Print_epoch (epoch_number wk + 1)] wk)\<lparr>training := True\<rparr>) = Inr (al, w1) \<and>
      validation_loop fw 0 vxs 0 (w1\<lparr>training := False\<rparr>) = Inr (rv, w2) \<and>
      (forward fw False (model w2) x = Inl e \<or>
       (\<exists>out. forward fw False (model w2) x = Inr out \<and> loss_fn fw out l = Inl e)) \<longrightarrow>
      run_epochs fw N trl (vxs @ (x, l) # vys) (k + Suc j) w0 =
        Inl (Raised e, w2\<lparr>var_i := Some (length vxs)\<rparr>))"
proof (intro conjI allI impI)
  show "train_batch fw ep i (x, l) w = Inl (Raised e, w)"
    if "forward fw (training w) (model w) x = Inl e"
    using that by (rule train_batch_raises(1))
  show "train_batch fw ep i (x, l) w = Inl (Raised e, w)"
    if "forward fw (training w) (model w) x = Inr out \<and> loss_fn fw out l = Inl e" for out
    using that train_batch_raises(2) [of fw w x out l e ep i] by simp
  show "train_batch fw ep i (x, l) w = Inl (Raised e, w)"
    if "forward fw (training w) (model w) x = Inr out \<and> loss_fn fw out l = Inr v \<and>
        backward_step fw (training w) (model w) x l = Inl e" for out v
    using that train_batch_raises(3) [of fw w x out l v e ep i] by simp
  show "run_epochs fw N (xs @ d # ys) vl (k + Suc j) w0 = Inl err"
    if "run_epochs fw N (xs @ d # ys) vl k w0 = Inr wk \<and>
      train_loop fw N (epoch_number wk) (length (xs @ d # ys)) 0 xs 0 0
        ((emit [Print_epoch (epoch_number wk + 1)] wk)\<lparr>training := True\<rparr>) = Inr (s, w1) \<and>
      train_batch fw (epoch_number wk) (length xs) d w1 = Inl err" for wk s w1 err
    using that training_raise_aborts_run [of fw N xs d ys vl k w0 wk s w1 err j] by simp
  show "run_epochs fw N trl (vxs @ (x, l) # vys) (k + Suc j) w0 =
        Inl (Raised e, w2\<lparr>var_i := Some (length vxs)\<rparr>)"
    if "run_epochs fw N trl (vxs @ (x, l) # vys) k w0 = Inr wk \<and>
      train_one_epoch fw N trl (epoch_number wk)
        ((emit [Print_epoch (epoch_number wk + 1)] wk)\<lparr>training := True\<rparr>) = Inr (al, w1) \<and>
      validation_loop fw 0 vxs 0 (w1\<lparr>training := False\<rparr>) = Inr (rv, w2) \<and>
      (forward fw False (model w2) x = Inl e \<or>
       (\<exists>out. forward fw False (model w2) x = Inr out \<and> loss_fn fw out l = Inl e))"
    for wk al w1 rv w2
    using that validation_raise_aborts_run [of fw N trl vxs x l vys k w0 wk al w1 rv w2 e j]
    by simp
qed

theorem errors_propagate_and_abort_witness:
  "train_batch guarded_fw 0 1 (- 1, 3)
     \<lparr>model = 2, training = True, epoch_number = 0, best_vloss = sentinel, var_i = None,
      trace = [Print_epoch 1, Train_batch 0 0 1], files = Map.empty\<rparr> =
     Inl (Raised ''negative input'',
          \<lparr>model = 2, training = True, epoch_number = 0, best_vloss = sentinel, var_i = None,
           trace = [Print_epoch 1, Train_batch 0 0 1], files = Map.empty\<rparr>) \<and>
   run_epochs guarded_fw 1000 [(1, 2), (- 1, 3), (1, 5)] [(1, 4)] 3 (notebook_start 1) =
     Inl (Raised ''negative input'',
          \<lparr>model = 2, training = True, epoch_number = 0, best_vloss = sentinel, var_i = None,
           trace = [Print_epoch 1, Train_batch 0 0 1], files = Map.empty\<rparr>)"
proof -
  let ?W1 = "\<lparr>model = 2 :: int, training = True, epoch_number = 0, best_vloss = sentinel,
      var_i = None, trace = [Print_epoch 1, Train_batch 0 0 1], files = Map.empty\<rparr>"
  let ?wk = "(notebook_start (1::int))\<lparr>best_vloss := sentinel\<rparr>"
  note T = errors_propagate_and_abort [where fw = guarded_fw and w = ?W1 and x = "- 1" and l = 3
      and e = "''negative input''" and ep = 0 and i = 1 and N = 1000 and xs = "[(1, 2)]"
      and d = "(- 1, 3)" and ys = "[(1, 5)]" and vl = "[(1, 4)]" and k = 0
      and ?w0.0 = "notebook_start 1" and j = 2]
  have f: "forward guarded_fw (training ?W1) (model ?W1) (- 1) = Inl ''negative input''"
    by (simp add: guarded_fw_def)
  from conjunct1 [OF T] f
  have b: "train_batch guarded_fw 0 1 (- 1, 3) ?W1 = Inl (Raised ''negative input'', ?W1)"
    by (rule mp)
  have p1: "run_epochs guarded_fw 1000 ([(1, 2)] @ (- 1, 3) # [(1, 5)]) [(1, 4)] 0 (notebook_start 1) =
      Inr ?wk"
    by (simp add: run_epochs_def)
  have p2: "train_loop guarded_fw 1000 (epoch_number ?wk) (length ([(1, 2)] @ (- 1, 3) # [(1, 5)])) 0
        [(1, 2)] 0 0 ((emit [Print_epoch (epoch_number ?wk + 1)] ?wk)\<lparr>training := True\<rparr>) =
      Inr ((1, 0), ?W1)"
    by (simp add: train_batch_def gather_and_report_def notebook_start_def emit_def
        guarded_fw_def Let_def)
  have p3: "train_batch guarded_fw (epoch_number ?wk) (length [(1::int, 2::int)]) (- 1, 3) ?W1 =
      Inl (Raised ''negative input'', ?W1)"
    using b by (simp add: notebook_start_def)
  from conjunct1 [OF conjunct2 [OF conjunct2 [OF conjunct2 [OF T]]], rule_format,
      OF conjI [OF p1 conjI [OF p2 p3]]]
  have "run_epochs guarded_fw 1000 [(1, 2), (- 1, 3), (1, 5)] [(1, 4)] 3 (notebook_start 1) =
      Inl (Raised ''negative input'', ?W1)"
    by simp
  with b show ?thesis by (intro conjI)
qed

text \<open>
  C2, as stated, fails for the TensorBoard notebook, whose validation check runs inside
  the training loop on every \<open>N\<close>-th batch. With \<open>N = 2\<close>, three training batches and
  one validation batch, the validation batch is evaluated after the second training
  batch and before the third of the same epoch.
\<close>

theorem tensorboard_validation_interleaved:
  "tb_cell linear_fw 2 [(1, 2), (1, 5), (1, 13)] [(1, 4)] (notebook_start 1) =
     Inr \<lparr>model = 4, training = True, epoch_number = 0, best_vloss = 0, var_i = None,
          trace = [Print_len 1, Train_batch 0 0 1, Train_batch 0 1 3, Print_batch_no 2,
                   Val_batch 0 0 1, Add_scalars 2 1 1, Train_batch 0 2 10,
                   Print_finished, Flush],
          files = Map.empty\<rparr> \<and>
   \<not> sorted (phases (trace (after_run
          (tb_cell linear_fw 2 [(1, 2), (1, 5), (1, 13)] [(1, 4)] (notebook_start 1)))))"
  by (simp add: tb_defs linear_fw_def)

text \<open>
  C2, amended. In the epoch cell of the Model Training notebook, in every run, finished
  or cut short by a raise, the events are in the order of their phases: every training
  batch of an epoch is completed before any validation batch of that epoch is
  evaluated, the epoch's snapshot is saved after all of them, and all of that comes
  before any batch of a later epoch.
\<close>

theorem epoch_phases_in_order:
  fixes w :: "'m world"
  assumes "0 < N"
  shows "sorted (phases (new_events w (after_run (run_epochs fw N trl vl E w))))"
proof -
  let ?w = "w\<lparr>best_vloss := sentinel\<rparr>"
  from epochs_loop_order [OF assms, of fw trl vl E ?w]
  obtain evs where "trace (after_run (epochs_loop fw N trl vl E ?w)) = trace ?w @ evs"
    "sorted (phases evs)"
    by blast
  then show ?thesis by (simp add: run_epochs_def new_events_def)
qed

theorem epoch_phases_in_order_witness:
  "(0::nat) < 2 \<and>
   sorted (phases (new_events (notebook_start 1) (after_run
     (run_epochs linear_fw 2 [(1, 2), (1, 5), (1, 13)] [(1, 4)] 2 (notebook_start 1))))) \<and>
   phases (new_events (notebook_start 1) (after_run
     (run_epochs linear_fw 2 [(1, 2), (1, 5), (1, 13)] [(1, 4)] 2 (notebook_start 1)))) =
     [0, 0, 0, 1, 2, 3, 3, 3, 4]"
proof -
  have pos: "(0::nat) < 2" by simp
  have ev: "phases (new_events (notebook_start 1) (after_run
     (run_epochs linear_fw 2 [(1, 2), (1, 5), (1, 13)] [(1, 4)] 2 (notebook_start 1)))) =
     [0, 0, 0, 1, 2, 3, 3, 3, 4]"
    by (simp add: run_defs linear_fw_def new_events_def eval_nat_numeral)
  from epoch_phases_in_order [OF pos, of "notebook_start 1" linear_fw
      "[(1, 2), (1, 5), (1, 13)]" "[(1, 4)]" 2] pos ev
  show ?thesis by (intro conjI)
qed

text \<open>
  C7. In every training pass, finished or cut short by a raise, batch \<open>i\<close> is followed
  by a training-progress data point exactly when \<open>i mod N = N - 1\<close>, that is after every
  \<open>N\<close> batches; its value is the accumulator over those \<open>N\<close> batches divided by \<open>N\<close> and
  its step is \<open>epoch_index * len(training_loader) + i + 1\<close>. Over a whole run the steps of
  the training-progress data points are strictly increasing. With one epoch, four
  training batches and \<open>N = 2\<close>, a run that completes writes exactly two
  training-progress data points and then the single end-of-epoch data point.
\<close>

theorem training_reports_every_N_batches:
  fixes w :: "'m world"
  assumes "0 < N"
  shows "new_events w (after (train_one_epoch fw N trl e w)) =
           spec_training_trace N e (length trl)
             (train_losses (new_events w (after (train_one_epoch fw N trl e w)))) \<and>
         sorted_wrt (<) (map snd (reports_of
           (new_events w (after_run (run_epochs fw N trl vl E w))))) \<and>
         (\<forall>w'. N = 2 \<and> length trl = 4 \<and> run_epochs fw N trl vl 1 w = Inr w' \<longrightarrow>
            (\<exists>v. filter is_report (new_events w w') =
               [Add_scalar (window_mean 2 (train_losses (new_events w w')) 0)
                  (epoch_number w * 4 + 2),
                Add_scalar (window_mean 2 (train_losses (new_events w w')) 1)
                  (epoch_number w * 4 + 4),
                Add_scalars (window_mean 2 (train_losses (new_events w w')) 1) v
                  (epoch_number w + 1)]))"
proof (intro conjI allI impI)
  show "new_events w (after (train_one_epoch fw N trl e w)) =
           spec_training_trace N e (length trl)
             (train_losses (new_events w (after (train_one_epoch fw N trl e w))))"
    using train_one_epoch_trace [OF assms, of w fw trl e] by (rule conjunct1)
  let ?w = "w\<lparr>best_vloss := sentinel\<rparr>"
  from epochs_loop_order [OF assms, of fw trl vl E ?w]
  obtain evs where "trace (after_run (epochs_loop fw N trl vl E ?w)) = trace ?w @ evs"
    "sorted_wrt (<) (map snd (reports_of evs))"
    by blast
  then show "sorted_wrt (<) (map snd (reports_of
           (new_events w (after_run (run_epochs fw N trl vl E w)))))"
    by (simp add: run_epochs_def new_events_def)
next
  fix w'
  assume a: "N = 2 \<and> length trl = 4 \<and> run_epochs fw N trl vl 1 w = Inr w'"
  let ?w = "w\<lparr>best_vloss := sentinel\<rparr>"
  let ?e = "epoch_number w"
  from a have body: "epoch_body fw 2 trl vl ?w = Inr w'"
    by (auto simp: run_epochs_def split: sum.splits)
  have two: "(0::nat) < 2" by simp
  from epoch_body_returned_trace [OF two body]
  obtain ls vs al av where s0: "length ls = length trl"
    "al = (if length trl < 2 then 0 else window_mean 2 ls (length trl div 2 - 1))"
    "new_events ?w w' = Print_epoch (epoch_number ?w + 1) #
       spec_training_trace 2 (epoch_number ?w) (length trl) ls @ val_events (epoch_number ?w) vs @
       [Print_loss al av, Add_scalars al av (epoch_number ?w + 1), Flush] @
       (if av < best_vloss ?w then [Save (epoch_number ?w) (model w')] else [])"
    by blast
  from a have len: "length trl = 4" by simp
  from s0 have s: "length ls = 4"
    "al = window_mean 2 ls 1"
    "new_events ?w w' = Print_epoch (?e + 1) # spec_training_trace 2 ?e 4 ls @ val_events ?e vs @
       [Print_loss al av, Add_scalars al av (?e + 1), Flush] @
       (if av < best_vloss ?w then [Save ?e (model w')] else [])"
    by (simp_all add: len)
  have ne: "new_events ?w w' = new_events w w'" by (simp add: new_events_def)
  have tl: "train_losses (new_events w w') = ls"
    using s(3) unfolding ne by (simp add: train_losses_spec [OF two])
  have ix: "[0..<length ls div 2] = [0, 1]"
    using s(1) by (simp add: upt_rec)
  have rs: "reports_of (spec_training_trace 2 ?e 4 ls :: 'm event list) =
      [(window_mean 2 ls 0, ?e * 4 + 2), (window_mean 2 ls 1, ?e * 4 + 4)]"
    unfolding reports_of_spec [OF two] ix by simp
  have fr: "filter is_report (spec_training_trace 2 ?e 4 ls :: 'm event list) =
      [Add_scalar (window_mean 2 ls 0) (?e * 4 + 2), Add_scalar (window_mean 2 ls 1) (?e * 4 + 4)]"
    by (subst filter_is_report_spec [OF two]) (simp add: rs)
  have "filter is_report (new_events w w') =
      [Add_scalar (window_mean 2 ls 0) (?e * 4 + 2), Add_scalar (window_mean 2 ls 1) (?e * 4 + 4),
       Add_scalars (window_mean 2 ls 1) av (?e + 1)]"
    using s(3) unfolding ne by (simp add: fr s(2))
  then show "\<exists>v. filter is_report (new_events w w') =
               [Add_scalar (window_mean 2 (train_losses (new_events w w')) 0) (?e * 4 + 2),
                Add_scalar (window_mean 2 (train_losses (new_events w w')) 1) (?e * 4 + 4),
                Add_scalars (window_mean 2 (train_losses (new_events w w')) 1) v (?e + 1)]"
    unfolding tl by (intro exI [of _ av])
qed

theorem training_reports_every_N_batches_witness:
  "(0::nat) < 2 \<and>
   run_epochs linear_fw 2 [(1, 2), (1, 5), (1, 13), (1, 6)] [(1, 4)] 1 (notebook_start 1) =
     Inr \<lparr>model = 5, training = False, epoch_number = 1, best_vloss = 1, var_i = Some 0,
          trace = [Print_epoch 1, Train_batch 0 0 1, Train_batch 0 1 3, Print_batch 2 2,
                   Add_scalar 2 2, Train_batch 0 2 10, Train_batch 0 3 2, Print_batch 4 6,
                   Add_scalar 6 4, Val_batch 0 0 1, Print_loss 6 1, Add_scalars 6 1 1, Flush,
                   Save 0 5],
          files = [0 \<mapsto> 5]\<rparr> \<and>
   sorted_wrt (<) (map snd (reports_of (new_events (notebook_start 1) (after_run
     (run_epochs linear_fw 2 [(1, 2), (1, 5), (1, 13), (1, 6)] [(1, 4)] 1 (notebook_start 1)))))) \<and>
   filter is_report (new_events (notebook_start 1) (after_run
     (run_epochs linear_fw 2 [(1, 2), (1, 5), (1, 13), (1, 6)] [(1, 4)] 1 (notebook_start 1)))) =
     [Add_scalar 2 2, Add_scalar 6 4, Add_scalars 6 1 1]"
proof -
  let ?W = "\<lparr>model = 5 :: int, training = False, epoch_number = 1, best_vloss = 1, var_i = Some 0,
          trace = [Print_epoch 1, Train_batch 0 0 1, Train_batch 0 1 3, Print_batch 2 2,
                   Add_scalar 2 2, Train_batch 0 2 10, Train_batch 0 3 2, Print_batch 4 6,
                   Add_scalar 6 4, Val_batch 0 0 1, Print_loss 6 1, Add_scalars 6 1 1, Flush,
                   Save 0 5],
          files = [0 \<mapsto> 5]\<rparr>"
  let ?trl = "[(1, 2), (1, 5), (1, 13), (1::int, 6::int)]"
  have pos: "(0::nat) < 2" by simp
  have run: "run_epochs linear_fw 2 ?trl [(1, 4)] 1 (notebook_start 1) = Inr ?W"
    by (simp add: run_defs linear_fw_def)
  note T = training_reports_every_N_batches [OF pos, where fw = linear_fw and trl = ?trl
      and vl = "[(1, 4)]" and E = 1 and w = "notebook_start 1"]
  from conjunct1 [OF conjunct2 [OF T]]
  have srt: "sorted_wrt (<) (map snd (reports_of (new_events (notebook_start 1) (after_run
     (run_epochs linear_fw 2 ?trl [(1, 4)] 1 (notebook_start 1))))))" .
  have prem: "(2::nat) = 2 \<and> length ?trl = 4 \<and>
      run_epochs linear_fw 2 ?trl [(1, 4)] 1 (notebook_start 1) = Inr ?W"
    using run by simp
  from conjunct2 [OF conjunct2 [OF T], rule_format, OF prem]
  obtain v where "filter is_report (new_events (notebook_start 1) ?W) =
               [Add_scalar (window_mean 2 (train_losses (new_events (notebook_start 1) ?W)) 0)
                  (epoch_number (notebook_start (1::int)) * 4 + 2),
                Add_scalar (window_mean 2 (train_losses (new_events (notebook_start 1) ?W)) 1)
                  (epoch_number (notebook_start (1::int)) * 4 + 4),
                Add_scalars (window_mean 2 (train_losses (new_events (notebook_start 1) ?W)) 1) v
                  (epoch_number (notebook_start (1::int)) + 1)]"
    ..
  then have "filter is_report (new_events (notebook_start 1) ?W) =
     [Add_scalar 2 2, Add_scalar 6 4, Add_scalars 6 1 1]"
    by (simp add: new_events_def notebook_start_def)
  with pos run srt show ?thesis by simp
qed

text \<open>
  C6. Whenever the loop body writes a training-progress data point it leaves the
  accumulator at 0, and after any number of batches that is a multiple of \<open>N\<close> the
  accumulator that the next iteration starts from is 0. Every training-progress data
  point of a training pass, finished or cut short, is the mean of one block of \<open>N\<close>
  consecutive batch losses, accumulated from 0, and so is the value the pass returns for
  the end-of-epoch report, unless no block was completed, when it is 0: no reported
  training mean holds more than \<open>N\<close> batches' worth of loss.
\<close>

theorem accumulator_reset_and_window_bound:
  fixes w :: "'m world"
  assumes "0 < N"
  shows "(case (gather_and_report N e len i r l0 x :: real \<times> real \<times> 'm event list) of
            (r', l0', evs) \<Rightarrow>
              if i mod N = N - 1 then r' = 0 \<and> reports_of evs = [(l0', e * len + i + 1)]
              else reports_of evs = [] \<and> l0' = l0) \<and>
         (\<forall>rl ll w'. train_loop fw N e len 0 xs 0 0 w = Inr ((rl, ll), w') \<and>
              length xs mod N = 0 \<longrightarrow> rl = 0) \<and>
         reports_of (new_events w (after (train_one_epoch fw N trl e w))) =
           map (\<lambda>k. (window_mean N
                        (train_losses (new_events w (after (train_one_epoch fw N trl e w)))) k,
                     e * length trl + (k + 1) * N))
             [0..<length (train_losses (new_events w (after (train_one_epoch fw N trl e w)))) div N] \<and>
         (\<forall>al w'. train_one_epoch fw N trl e w = Inr (al, w') \<longrightarrow>
            al = (if length trl < N then 0
                  else window_mean N (train_losses (new_events w w')) (length trl div N - 1))) \<and>
         (\<forall>ls k. window_mean N ls k = foldl (+) 0 (take N (drop (k * N) ls)) / real N \<and>
            length (take N (drop (k * N) ls)) \<le> N)"
proof (intro conjI allI impI)
  show "case (gather_and_report N e len i r l0 x :: real \<times> real \<times> 'm event list) of
            (r', l0', evs) \<Rightarrow>
              if i mod N = N - 1 then r' = 0 \<and> reports_of evs = [(l0', e * len + i + 1)]
              else reports_of evs = [] \<and> l0' = l0"
    by (rule gather_and_report_cases)
  show "rl = 0"
    if "train_loop fw N e len 0 xs 0 0 w = Inr ((rl, ll), w') \<and> length xs mod N = 0"
    for rl ll w'
    using that train_loop_accumulator [OF assms, of fw e len xs w rl ll w'] by simp
  show "reports_of (new_events w (after (train_one_epoch fw N trl e w))) =
           map (\<lambda>k. (window_mean N
                        (train_losses (new_events w (after (train_one_epoch fw N trl e w)))) k,
                     e * length trl + (k + 1) * N))
             [0..<length (train_losses (new_events w (after (train_one_epoch fw N trl e w)))) div N]"
    by (rule train_one_epoch_reports [OF assms])
  show "al = (if length trl < N then 0
                  else window_mean N (train_losses (new_events w w')) (length trl div N - 1))"
    if "train_one_epoch fw N trl e w = Inr (al, w')" for al w'
    using that train_one_epoch_trace [OF assms, of w fw trl e] by simp
  show "window_mean N ls k = foldl (+) 0 (take N (drop (k * N) ls)) / real N" for ls k
    by (simp add: window_mean_def)
  show "length (take N (drop (k * N) ls)) \<le> N" for ls :: "real list" and k
    by simp
qed

theorem accumulator_reset_and_window_bound_witness:
  "(0::nat) < 2 \<and>
   train_loop linear_fw 2 0 2 0 [(1, 2), (1, 5)] 0 0 (notebook_start 1) =
     Inr ((0, 2),
          \<lparr>model = 3, training = True, epoch_number = 0, best_vloss = 0, var_i = None,
           trace = [Train_batch 0 0 1, Train_batch 0 1 3, Print_batch 2 2, Add_scalar 2 2],
           files = Map.empty\<rparr>) \<and>
   length [(1::int, 2::int), (1, 5)] mod 2 = 0 \<and>
   reports_of (new_events (notebook_start 1)
     (after (train_one_epoch linear_fw 2 [(1, 2), (1, 5), (1, 13)] 0 (notebook_start 1)))) =
     [(2, 2)]"
proof -
  let ?W1 = "\<lparr>model = 3 :: int, training = True, epoch_number = 0, best_vloss = 0, var_i = None,
           trace = [Train_batch 0 0 1, Train_batch 0 1 3, Print_batch 2 2, Add_scalar 2 2],
           files = Map.empty\<rparr>"
  have pos: "(0::nat) < 2" by simp
  note T = accumulator_reset_and_window_bound [OF pos, where fw = linear_fw and e = 0 and len = 2
      and xs = "[(1, 2), (1, 5)]" and w = "notebook_start 1" and trl = "[(1, 2), (1, 5), (1, 13)]"]
  have loop: "train_loop linear_fw 2 0 2 0 [(1, 2), (1, 5)] 0 0 (notebook_start 1) =
      Inr ((0, 2), ?W1)"
    by (simp add: train_batch_def gather_and_report_def notebook_start_def emit_def
        linear_fw_def Let_def)
  have len: "length [(1::int, 2::int), (1, 5)] mod 2 = 0" by simp
  from conjunct1 [OF conjunct2 [OF T], rule_format, OF conjI [OF loop len]]
  have zero: "(0::real) = 0" .
  from conjunct1 [OF conjunct2 [OF conjunct2 [OF T]]]
  have rep: "reports_of (new_events (notebook_start 1)
     (after (train_one_epoch linear_fw 2 [(1, 2), (1, 5), (1, 13)] 0 (notebook_start 1)))) =
     [(2, 2)]"
    by (simp add: train_one_epoch_def train_batch_def gather_and_report_def notebook_start_def
        emit_def linear_fw_def Let_def new_events_def)
  from pos loop len rep show ?thesis by (intro conjI)
qed

text \<open>
  C1, as stated, fails: the loop reports only when \<open>i mod N = N - 1\<close>, and
  \<^verbatim>\<open>train_one_epoch\<close> returns \<^verbatim>\<open>last_loss\<close>, the value of the last such report. With
  three training batches of losses 1, 3 and 10 and \<open>N = 2\<close>, the training value of the
  end-of-epoch report is 2, the mean of batches 1 and 2; the loss 10 of batch 3 is in no
  report, where the claim has the final segment average batch 3 alone.
\<close>

theorem partial_window_never_reported:
  "run_epochs linear_fw 2 [(1, 2), (1, 5), (1, 13)] [(1, 4)] 1 (notebook_start 1) =
     Inr \<lparr>model = 4, training = False, epoch_number = 1, best_vloss = 0, var_i = Some 0,
          trace = [Print_epoch 1, Train_batch 0 0 1, Train_batch 0 1 3, Print_batch 2 2,
                   Add_scalar 2 2, Train_batch 0 2 10, Val_batch 0 0 0, Print_loss 2 0,
                   Add_scalars 2 0 1, Flush, Save 0 4],
          files = [0 \<mapsto> 4]\<rparr>"
  by (simp add: run_defs linear_fw_def)

text \<open>
  C1, amended. In an epoch that completes, whether or not the number of training
  batches is a multiple of \<open>N\<close>, the training-progress data points are the means of the
  complete blocks of \<open>N\<close> batches and nothing else, and the training value of the
  end-of-epoch report is the mean of the last complete block, divided by \<open>N\<close>, or 0 when
  there were fewer than \<open>N\<close> batches; the batches after the last complete block enter
  no report.
\<close>

theorem end_of_epoch_reports_last_full_window:
  fixes w :: "'m world"
  assumes "0 < N" "epoch_body fw N trl vl w = Inr w'"
  shows "length (train_losses (new_events w w')) = length trl \<and>
         reports_of (new_events w w') =
           map (\<lambda>k. (window_mean N (train_losses (new_events w w')) k,
                     epoch_number w * length trl + (k + 1) * N))
             [0..<length trl div N] \<and>
         (\<exists>av. epoch_reports_of (new_events w w') =
            [(if length trl < N then 0
              else window_mean N (train_losses (new_events w w')) (length trl div N - 1),
              av, epoch_number w + 1)])"
  using epoch_body_returned_reports [OF assms] .

theorem end_of_epoch_reports_last_full_window_witness:
  "(0::nat) < 2 \<and>
   epoch_body linear_fw 2 [(1, 2), (1, 5), (1, 13)] [(1, 4)] (notebook_start 1) =
     Inr \<lparr>model = 4, training = False, epoch_number = 1, best_vloss = 0, var_i = Some 0,
          trace = [Print_epoch 1, Train_batch 0 0 1, Train_batch 0 1 3, Print_batch 2 2,
                   Add_scalar 2 2, Train_batch 0 2 10, Val_batch 0 0 0, Print_loss 2 0,
                   Add_scalars 2 0 1, Flush],
          files = Map.empty\<rparr> \<and>
   length (train_losses (new_events (notebook_start (1::int))
     \<lparr>model = 4 :: int, training = False, epoch_number = 1, best_vloss = 0, var_i = Some 0,
      trace = [Print_epoch 1, Train_batch 0 0 1, Train_batch 0 1 3, Print_batch 2 2,
               Add_scalar 2 2, Train_batch 0 2 10, Val_batch 0 0 0, Print_loss 2 0,
               Add_scalars 2 0 1, Flush],
      files = Map.empty\<rparr>)) = length [(1::int, 2::int), (1, 5), (1, 13)] \<and>
   reports_of [Print_epoch 1, Train_batch 0 0 1, Train_batch 0 1 3, Print_batch 2 2,
               Add_scalar 2 2, Train_batch 0 2 10, Val_batch 0 0 0, Print_loss 2 0,
               Add_scalars 2 0 1, Flush :: int event] = [(2, 2)] \<and>
   epoch_reports_of [Print_epoch 1, Train_batch 0 0 1, Train_batch 0 1 3, Print_batch 2 2,
               Add_scalar 2 2, Train_batch 0 2 10, Val_batch 0 0 0, Print_loss 2 0,
               Add_scalars 2 0 1, Flush :: int event] = [(2, 0, 1)]"
proof -
  let ?W = "\<lparr>model = 4 :: int, training = False, epoch_number = 1, best_vloss = 0, var_i = Some 0,
          trace = [Print_epoch 1, Train_batch 0 0 1, Train_batch 0 1 3, Print_batch 2 2,
                   Add_scalar 2 2, Train_batch 0 2 10, Val_batch 0 0 0, Print_loss 2 0,
                   Add_scalars 2 0 1, Flush],
          files = Map.empty\<rparr>"
  have pos: "(0::nat) < 2" by simp
  have body: "epoch_body linear_fw 2 [(1, 2), (1, 5), (1, 13)] [(1, 4)] (notebook_start 1) = Inr ?W"
    by (simp add: run_defs linear_fw_def)
  from conjunct1 [OF end_of_epoch_reports_last_full_window [OF pos body]]
  have len: "length (train_losses (new_events (notebook_start 1) ?W)) =
      length [(1::int, 2::int), (1, 5), (1, 13)]" .
  have r1: "reports_of [Print_epoch 1, Train_batch 0 0 1, Train_batch 0 1 3, Print_batch 2 2,
               Add_scalar 2 2, Train_batch 0 2 10, Val_batch 0 0 0, Print_loss 2 0,
               Add_scalars 2 0 1, Flush :: int event] = [(2, 2)]"
    by simp
  have r2: "epoch_reports_of [Print_epoch 1, Train_batch 0 0 1, Train_batch 0 1 3, Print_batch 2 2,
               Add_scalar 2 2, Train_batch 0 2 10, Val_batch 0 0 0, Print_loss 2 0,
               Add_scalars 2 0 1, Flush :: int event] = [(2, 0, 1)]"
    by simp
  from pos body len r1 r2 show ?thesis by (intro conjI)
qed

end
